theory Spec2Isabelle
  imports Complex_Main
begin

section \<open>Data model of the transaction service\<close>

text \<open>
  The types under \<^verbatim>\<open>types/\<close> other than \<^verbatim>\<open>Log.ts\<close> are not part of the sources at hand;
  the records below hold the fields that \<^verbatim>\<open>TransactionService\<close> reads and writes.
  An optional field of the TypeScript is an \<open>option\<close>; a JavaScript truthiness test on an
  optional string is \<open>truthy\<close>.
\<close>

definition truthy :: "string option \<Rightarrow> bool" where
  "truthy s = (case s of None \<Rightarrow> False | Some v \<Rightarrow> v \<noteq> [])"

datatype RefundStatus = SUBMITTED | NOT_SUBMITTED | CANCELLED | APPROVED

record User =
  user_id :: string
  user_issuer :: bool

record UserToken =
  token_id :: string
  tenantID :: string

record RefundData =
  refundId :: "string option"
  status :: "RefundStatus option"

record BillingData =
  invoiceID :: "string option"

record OcpiCdr =
  cdr_id :: "string option"

record OcpiData =
  cdr :: "OcpiCdr option"

record TransactionStop =
  stop_timestamp :: int
  totalConsumptionWh :: real
  totalDurationSecs :: real
  totalInactivitySecs :: real
  price :: real
  priceUnit :: string

record Connector =
  connectorId :: int
  currentTransactionID :: "int option"

record ChargingStation =
  station_id :: string
  connectors :: "Connector list"

record Transaction =
  transaction_id :: int
  chargeBoxID :: string
  transaction_connectorId :: int
  user :: "User option"
  timestamp :: int
  stop :: "TransactionStop option"
  issuer :: bool
  refundData :: "RefundData option"
  billingData :: "BillingData option"
  ocpiData :: "OcpiData option"
  chargeBox :: "ChargingStation option"

subsection \<open>Errors and log entries\<close>

datatype HTTPError =
    GENERAL_ERROR
  | OBJECT_DOES_NOT_EXIST_ERROR
  | TRANSACTION_NOT_FROM_TENANT
  | TRANSACTION_WITH_NO_OCPI_DATA
  | TRANSACTION_CDR_ALREADY_PUSHED

datatype Action = UPDATE | REFUND_TRANSACTION | DELETE | LIST | READ

datatype Entity = TRANSACTION | TRANSACTIONS

text \<open>The message templates of the service, with the interpolated id as an argument.\<close>

datatype Message =
    TransactionIDsMustBeProvided
  | NoRefundImplementationFound
  | IdMustBeProvided
  | UserDoesNotExist string
  | TransactionDoesNotExist int
  | ChargingStationDoesNotExist string
  | TransactionAlreadyRefunded int
  | TransactionRefundedCannotBeDeleted int
  | TransactionBilledCannotBeDeleted int
  | TransactionBelongsToExternalOrganization int
  | TransactionHasNoOcpiData int
  | CdrAlreadyPushed int
  | CdrPushedSuccessfully int
  | ActionsResponseSummary nat nat

text \<open>
  \<open>TypeError\<close> is the JavaScript runtime error of reading a property of \<^verbatim>\<open>null\<close> or
  \<^verbatim>\<open>undefined\<close>; \<open>AppError\<close> and \<open>AppAuthError\<close> are the two exception classes the
  service throws; \<open>IntegrationError\<close> is an exception coming out of a collaborator (the refund
  integration, the roaming collaborator), with its message.
\<close>

datatype error =
    TypeError
  | AppError HTTPError Message
  | AppAuthError Action Entity string
  | IntegrationError string

text \<open>\<^verbatim>\<open>types/Log.ts\<close>: the level enumeration and the fields of a log entry the service fills.\<close>

datatype LogLevel = DEBUG | INFO | WARNING | ERROR | NONE | DEFAULT

record Log =
  log_level :: LogLevel
  log_method :: string
  log_message :: Message
  actionOnUser :: "User option"

subsection \<open>The stores of one tenant, and the collaborators\<close>

text \<open>
  Every operation is scoped to the tenant of the caller's token, so the state is the
  collections of that one tenant. \<open>snapshotSupplied\<close> says for which transactions a read of
  the transaction store attaches the charging-station snapshot. \<open>refundCalls\<close> and
  \<open>ocpiCalls\<close> record each invocation of the refund integration and of the roaming
  collaborator, \<open>logs\<close> each entry handed to \<^verbatim>\<open>Logging\<close>.
\<close>

record state =
  transactions :: "int \<rightharpoonup> Transaction"
  chargingStations :: "string \<rightharpoonup> ChargingStation"
  users :: "string \<rightharpoonup> User"
  snapshotSupplied :: "int \<Rightarrow> bool"
  logs :: "Log list"
  refundCalls :: "(string \<times> Transaction list) list"
  ocpiCalls :: "int list"

text \<open>
  The refund integration (\<^verbatim>\<open>RefundFactory.getRefundImpl\<close>) is pluggable and not part of
  the sources: its two operations are parameters, \<open>refund\<close> returning the transactions it
  refunded or failing with a message. The billing integration is only tested for presence.
\<close>

record RefundIntegration =
  canBeDeleted :: "Transaction \<Rightarrow> bool"
  refund :: "string \<Rightarrow> Transaction list \<Rightarrow> string + Transaction list"

datatype BillingIntegration = BillingIntegration

record Authorizations =
  canRefundTransaction :: "UserToken \<Rightarrow> Transaction \<Rightarrow> bool"
  canUpdateTransaction :: "UserToken \<Rightarrow> bool"
  canDeleteTransaction :: "UserToken \<Rightarrow> bool"
  canListTransactionsInError :: "UserToken \<Rightarrow> bool"

record Integrations =
  refundImpl :: "RefundIntegration option"
  billingImpl :: "BillingIntegration option"

text \<open>
  Modelled from the spec: \<^verbatim>\<open>ChargingStationStorage.getChargingStation\<close> and
  \<^verbatim>\<open>saveChargingStation\<close>, which are not under the sources (section 6:
  \<^verbatim>\<open>get(tenant, stationId)\<close>, \<^verbatim>\<open>save(tenant, station)\<close>). A station is stored under its id.
\<close>

definition getChargingStation :: "state \<Rightarrow> string \<Rightarrow> ChargingStation option" where
  "getChargingStation st sid =
     map_option (\<lambda>cs. cs\<lparr>station_id := sid\<rparr>) (chargingStations st sid)"

definition saveChargingStation :: "ChargingStation \<Rightarrow> state \<Rightarrow> state" where
  "saveChargingStation cs st =
     st\<lparr>chargingStations := (chargingStations st)(station_id cs \<mapsto> cs)\<rparr>"

text \<open>
  Modelled from the spec: \<^verbatim>\<open>TransactionStorage.getTransaction\<close>, \<^verbatim>\<open>saveTransaction\<close> and
  \<^verbatim>\<open>deleteTransactions\<close>, which are not under the sources (section 6: \<^verbatim>\<open>get(tenant, id)\<close>,
  \<^verbatim>\<open>save(tenant, tx)\<close>, \<^verbatim>\<open>bulkDelete(tenant, ids)\<close> returning the count actually removed).
  The transaction is stored under its id. \<open>chargeBox\<close> is the optional live charging-station
  snapshot, derived at each read and never persisted (section 3); a read may come without
  it (section 4.1: "if the in-memory station snapshot was not supplied"), which line 795
  provides for.
\<close>

definition attachedSnapshot :: "state \<Rightarrow> int \<Rightarrow> Transaction \<Rightarrow> ChargingStation option" where
  "attachedSnapshot st tid t =
     (if snapshotSupplied st tid then getChargingStation st (chargeBoxID t) else None)"

definition getTransaction :: "state \<Rightarrow> int \<Rightarrow> Transaction option" where
  "getTransaction st tid =
     map_option (\<lambda>t. t\<lparr>transaction_id := tid, chargeBox := attachedSnapshot st tid t\<rparr>)
       (transactions st tid)"

definition saveTransaction :: "Transaction \<Rightarrow> state \<Rightarrow> state" where
  "saveTransaction t st = st\<lparr>transactions := (transactions st)(transaction_id t \<mapsto> t)\<rparr>"

definition storeDeleteTransactions :: "int list \<Rightarrow> state \<Rightarrow> nat \<times> state" where
  "storeDeleteTransactions ids st =
     (length (filter (\<lambda>i. transactions st i \<noteq> None) (remdups ids)),
      st\<lparr>transactions := (\<lambda>i. if i \<in> set ids then None else transactions st i)\<rparr>)"

text \<open>
  Modelled from the spec: \<^verbatim>\<open>UserStorage.getUser\<close>, which is not under the sources; a user is
  stored under its id.
\<close>

definition getUser :: "state \<Rightarrow> string \<Rightarrow> User option" where
  "getUser st uid = map_option (\<lambda>x. x\<lparr>user_id := uid\<rparr>) (users st uid)"

definition logEntry :: "LogLevel \<Rightarrow> string \<Rightarrow> Message \<Rightarrow> User option \<Rightarrow> state \<Rightarrow> state" where
  "logEntry lvl m msg u st =
     st\<lparr>logs := logs st @ [\<lparr>log_level = lvl, log_method = m, log_message = msg, actionOnUser = u\<rparr>]\<rparr>"

section \<open>Refund submission\<close>

record RefundResponse =
  refund_status :: string
  refund_inSuccess :: nat
  refund_inError :: "int option"

text \<open>
  The condition of line 116:
  \<^verbatim>\<open>transaction.refundData && !!transaction.refundData.refundId && transaction.refundData.status !== RefundStatus.CANCELLED\<close>.
\<close>

definition alreadyRefunded :: "Transaction \<Rightarrow> bool" where
  "alreadyRefunded t =
     (case refundData t of
        None \<Rightarrow> False
      | Some rd \<Rightarrow> truthy (refundId rd) \<and> status rd \<noteq> Some CANCELLED)"

text \<open>
  The loop of \<^verbatim>\<open>handleRefundTransactions\<close> (lines 103 to 140), with the list
  \<^verbatim>\<open>transactionsToRefund\<close> as accumulator. In the branch of a missing transaction the
  argument of \<^verbatim>\<open>Logging.logError\<close> reads \<^verbatim>\<open>transaction.user\<close> of the absent transaction:
  the read throws before anything is logged and before \<^verbatim>\<open>continue\<close> is reached.
\<close>

fun refundLoop ::
  "Authorizations \<Rightarrow> UserToken \<Rightarrow> int list \<Rightarrow> Transaction list \<Rightarrow> state
     \<Rightarrow> (error + Transaction list) \<times> state" where
  "refundLoop auth u [] acc st = (Inr acc, st)"
| "refundLoop auth u (transactionId # ids) acc st =
     (case getTransaction st transactionId of
        None \<Rightarrow> (Inl TypeError, st)
      | Some t \<Rightarrow>
          if alreadyRefunded t then
            refundLoop auth u ids acc
              (logEntry ERROR ''handleRefundTransactions''
                 (TransactionAlreadyRefunded (transaction_id t)) (user t) st)
          else if \<not> canRefundTransaction auth u t then
            (Inl (AppAuthError REFUND_TRANSACTION TRANSACTION ''handleRefundTransactions''), st)
          else refundLoop auth u ids (acc @ [t]) st)"

definition handleRefundTransactions ::
  "Authorizations \<Rightarrow> Integrations \<Rightarrow> UserToken \<Rightarrow> int list option \<Rightarrow> state
     \<Rightarrow> (error + RefundResponse) \<times> state" where
  "handleRefundTransactions auth integ u transactionIds st =
     (case transactionIds of
        None \<Rightarrow> (Inl (AppError GENERAL_ERROR TransactionIDsMustBeProvided), st)
      | Some ids \<Rightarrow>
          (case refundLoop auth u ids [] st of
             (Inl e, st1) \<Rightarrow> (Inl e, st1)
           | (Inr transactionsToRefund, st1) \<Rightarrow>
               (case getUser st1 (token_id u) of
                  None \<Rightarrow>
                    (Inl (AppError OBJECT_DOES_NOT_EXIST_ERROR (UserDoesNotExist (token_id u))), st1)
                | Some usr \<Rightarrow>
                    (case refundImpl integ of
                       None \<Rightarrow> (Inl (AppError GENERAL_ERROR NoRefundImplementationFound), st1)
                     | Some refundConnector \<Rightarrow>
                         (let st2 = st1\<lparr>refundCalls :=
                                 refundCalls st1 @ [(user_id usr, transactionsToRefund)]\<rparr>
                          in case refund refundConnector (user_id usr) transactionsToRefund of
                               Inl failure \<Rightarrow> (Inl (IntegrationError failure), st2)
                             | Inr refundedTransactions \<Rightarrow>
                                 (let notRefundedTransactions =
                                        int (length transactionsToRefund)
                                          - int (length refundedTransactions)
                                  in (Inr \<lparr>refund_status = ''Success'',
                                           refund_inSuccess = length refundedTransactions,
                                           refund_inError =
                                             (if notRefundedTransactions > 0
                                              then Some notRefundedTransactions else None)\<rparr>,
                                      st2)))))))"

section \<open>Bulk deletion\<close>

record ActionsResponse =
  inSuccess :: nat
  inError :: nat

text \<open>
  Modelled from the spec: \<^verbatim>\<open>Utils.getConnectorFromID\<close> and
  \<^verbatim>\<open>OCPPUtils.checkAndFreeChargingStationConnector\<close>, which are not under the sources. The
  station exposes connectors with a \<^verbatim>\<open>currentTransactionID\<close> back-reference, looked up by
  connector id and clearable via a release operation that unsets the binding
  (sections 4.1, 6 and 8).
\<close>

definition getConnectorFromID :: "ChargingStation \<Rightarrow> int \<Rightarrow> Connector option" where
  "getConnectorFromID cs cid = find (\<lambda>c. connectorId c = cid) (connectors cs)"

fun freeConnector :: "Connector list \<Rightarrow> int \<Rightarrow> Connector list" where
  "freeConnector [] cid = []"
| "freeConnector (c # cs) cid =
     (if connectorId c = cid then c\<lparr>currentTransactionID := None\<rparr> # cs
      else c # freeConnector cs cid)"

definition checkAndFreeChargingStationConnector :: "ChargingStation \<Rightarrow> int \<Rightarrow> ChargingStation" where
  "checkAndFreeChargingStationConnector cs cid = cs\<lparr>connectors := freeConnector (connectors cs) cid\<rparr>"

text \<open>The two financial holds of lines 772 and 783.\<close>

definition refundBlocksDeletion :: "Integrations \<Rightarrow> Transaction \<Rightarrow> bool" where
  "refundBlocksDeletion integ t =
     (case refundImpl integ of
        None \<Rightarrow> False
      | Some refundConnector \<Rightarrow> \<not> canBeDeleted refundConnector t)"

definition hasInvoice :: "Transaction \<Rightarrow> bool" where
  "hasInvoice t = (case billingData t of None \<Rightarrow> False | Some b \<Rightarrow> truthy (invoiceID b))"

definition billingBlocksDeletion :: "Integrations \<Rightarrow> Transaction \<Rightarrow> bool" where
  "billingBlocksDeletion integ t = (billingImpl integ \<noteq> None \<and> hasInvoice t)"

text \<open>
  Lines 795 to 804: the connector of an active transaction is cleared and the station
  saved when the station snapshot is there, the connector is found and it holds this
  transaction.
\<close>

definition releaseConnector :: "Transaction \<Rightarrow> state \<Rightarrow> state" where
  "releaseConnector t st =
     (case chargeBox t of
        None \<Rightarrow> st
      | Some cb \<Rightarrow>
          (case getConnectorFromID cb (transaction_connectorId t) of
             None \<Rightarrow> st
           | Some foundConnector \<Rightarrow>
               if Some (transaction_id t) = currentTransactionID foundConnector
               then saveChargingStation
                      (checkAndFreeChargingStationConnector cb (transaction_connectorId t)) st
               else st))"

text \<open>
  One iteration of the loop of \<^verbatim>\<open>deleteTransactions\<close> (lines 757 to 812) on the loop
  variables \<^verbatim>\<open>transactionsIDsToDelete\<close> and \<^verbatim>\<open>result.inError\<close> and the state.
\<close>

definition deleteStep ::
  "Integrations \<Rightarrow> int \<Rightarrow> int list \<times> nat \<times> state \<Rightarrow> int list \<times> nat \<times> state" where
  "deleteStep integ transactionID v =
     (case v of (transactionsIDsToDelete, inErr, st) \<Rightarrow>
        (case getTransaction st transactionID of
           None \<Rightarrow>
             (transactionsIDsToDelete, inErr + 1,
              logEntry ERROR ''handleDeleteTransactions''
                (TransactionDoesNotExist transactionID) None st)
         | Some t \<Rightarrow>
             if refundBlocksDeletion integ t then
               (transactionsIDsToDelete, inErr + 1,
                logEntry ERROR ''handleDeleteTransactions''
                  (TransactionRefundedCannotBeDeleted transactionID) None st)
             else if billingBlocksDeletion integ t then
               (transactionsIDsToDelete, inErr + 1,
                logEntry ERROR ''handleDeleteTransactions''
                  (TransactionBilledCannotBeDeleted transactionID) None st)
             else if stop t = None then
               (transactionsIDsToDelete @ [transactionID], inErr, releaseConnector t st)
             else (transactionsIDsToDelete @ [transactionID], inErr, st)))"

fun deleteLoop ::
  "Integrations \<Rightarrow> int list \<Rightarrow> int list \<times> nat \<times> state \<Rightarrow> int list \<times> nat \<times> state" where
  "deleteLoop integ [] v = v"
| "deleteLoop integ (transactionID # ids) v = deleteLoop integ ids (deleteStep integ transactionID v)"

text \<open>
  \<^verbatim>\<open>deleteTransactions\<close> (lines 748 to 826): the loop, one bulk delete of the marked ids
  whose count becomes \<^verbatim>\<open>inSuccess\<close>, and the call of \<^verbatim>\<open>Utils.logActionsResponse\<close>, which is
  not under the sources and is taken to write one summary entry.
\<close>

definition transactionsIDsToDelete :: "Integrations \<Rightarrow> int list \<Rightarrow> state \<Rightarrow> int list" where
  "transactionsIDsToDelete integ ids st = fst (deleteLoop integ ids ([], 0, st))"

definition deleteTransactions ::
  "Integrations \<Rightarrow> int list \<Rightarrow> state \<Rightarrow> ActionsResponse \<times> state" where
  "deleteTransactions integ transactionsIDs st =
     (case deleteLoop integ transactionsIDs ([], 0, st) of
        (toDelete, inErr, st1) \<Rightarrow>
          (case storeDeleteTransactions toDelete st1 of
             (deleted, st2) \<Rightarrow>
               (\<lparr>inSuccess = deleted, inError = inErr\<rparr>,
                logEntry (if inErr > 0 then ERROR else INFO) ''synchronizeCarCatalogs''
                  (ActionsResponseSummary deleted inErr) None st2)))"

text \<open>\<^verbatim>\<open>handleDeleteTransactions\<close> (lines 373 to 391): the pre-flight capability check, then the batch.\<close>

definition handleDeleteTransactions ::
  "Authorizations \<Rightarrow> Integrations \<Rightarrow> UserToken \<Rightarrow> int list \<Rightarrow> state
     \<Rightarrow> (error + ActionsResponse) \<times> state" where
  "handleDeleteTransactions auth integ u transactionsIds st =
     (if \<not> canDeleteTransaction auth u
      then (Inl (AppAuthError DELETE TRANSACTION ''handleDeleteTransactions''), st)
      else (case deleteTransactions integ transactionsIds st of
              (result, st1) \<Rightarrow> (Inr result, st1)))"

section \<open>CDR push\<close>

text \<open>Line 217: \<^verbatim>\<open>transaction.ocpiData.cdr?.id\<close>.\<close>

definition cdrAlreadyPushed :: "OcpiData \<Rightarrow> bool" where
  "cdrAlreadyPushed od = (case cdr od of None \<Rightarrow> False | Some c \<Rightarrow> truthy (cdr_id c))"

text \<open>
  \<^verbatim>\<open>handlePushTransactionCdr\<close> (lines 171 to 242). \<^verbatim>\<open>OCPPUtils.processOCPITransaction\<close> is not
  under the sources and is the parameter \<open>processOCPITransaction\<close>: the roaming-protocol
  collaborator builds and sends the CDR, may throw, and leaves its outcome in the OCPI data
  of the transaction, which the handler then saves. Each invocation is recorded in
  \<open>ocpiCalls\<close>. \<^verbatim>\<open>UtilsService.assertIdIsProvided\<close> and \<^verbatim>\<open>assertObjectExists\<close> throw when the
  id, respectively the object, is missing.
\<close>

definition handlePushTransactionCdr ::
  "Authorizations \<Rightarrow> (Transaction \<Rightarrow> ChargingStation \<Rightarrow> string + OcpiData) \<Rightarrow> UserToken
     \<Rightarrow> int option \<Rightarrow> state \<Rightarrow> (error + unit) \<times> state" where
  "handlePushTransactionCdr auth processOCPITransaction u transactionId st =
     (case transactionId of
        None \<Rightarrow> (Inl (AppError GENERAL_ERROR IdMustBeProvided), st)
      | Some tid \<Rightarrow>
          if \<not> canUpdateTransaction auth u
          then (Inl (AppAuthError UPDATE TRANSACTION ''handlePushTransactionCdr''), st)
          else
            (case getTransaction st tid of
               None \<Rightarrow> (Inl (AppError OBJECT_DOES_NOT_EXIST_ERROR (TransactionDoesNotExist tid)), st)
             | Some t \<Rightarrow>
                 (case getChargingStation st (chargeBoxID t) of
                    None \<Rightarrow>
                      (Inl (AppError OBJECT_DOES_NOT_EXIST_ERROR
                              (ChargingStationDoesNotExist (chargeBoxID t))), st)
                  | Some chargingStation \<Rightarrow>
                      if \<not> issuer t
                      then (Inl (AppError TRANSACTION_NOT_FROM_TENANT
                                   (TransactionBelongsToExternalOrganization (transaction_id t))), st)
                      else
                        (case ocpiData t of
                           None \<Rightarrow>
                             (Inl (AppError TRANSACTION_WITH_NO_OCPI_DATA
                                     (TransactionHasNoOcpiData (transaction_id t))), st)
                         | Some od \<Rightarrow>
                             if cdrAlreadyPushed od
                             then (Inl (AppError TRANSACTION_CDR_ALREADY_PUSHED
                                          (CdrAlreadyPushed (transaction_id t))), st)
                             else
                               (let st1 = st\<lparr>ocpiCalls := ocpiCalls st @ [transaction_id t]\<rparr>
                                in case processOCPITransaction t chargingStation of
                                     Inl failure \<Rightarrow> (Inl (IntegrationError failure), st1)
                                   | Inr od' \<Rightarrow>
                                       (let t' = t\<lparr>ocpiData := Some od'\<rparr>
                                        in (Inr (),
                                            logEntry INFO ''handlePushTransactionCdr''
                                              (CdrPushedSuccessfully (transaction_id t')) (user t')
                                              (saveTransaction t' st1))))))))"

text \<open>The CDR id persisted for a transaction, as a later read of the store sees it.\<close>

definition persistedCdrPushed :: "state \<Rightarrow> int \<Rightarrow> bool" where
  "persistedCdrPushed st tid =
     (case getTransaction st tid of
        None \<Rightarrow> False
      | Some t \<Rightarrow> (case ocpiData t of None \<Rightarrow> False | Some od \<Rightarrow> cdrAlreadyPushed od))"

section \<open>The in-error query\<close>

datatype TenantComponents = ORGANIZATION | PRICING | BILLING

datatype TransactionInErrorType =
    LONG_INACTIVITY | NEGATIVE_ACTIVITY | NEGATIVE_DURATION | OVER_CONSUMPTION
  | INVALID_START_DATE | NO_CONSUMPTION | MISSING_USER | MISSING_PRICE | NO_BILLING_DATA

text \<open>An entry of \<^verbatim>\<open>filter.errorType\<close>: a string of the request, or a value of the enumeration.\<close>

datatype ErrorTypeEntry = Requested string | Known TransactionInErrorType

record InErrorRequest =
  ChargeBoxID :: "string option"
  UserID :: "string option"
  SiteAreaID :: "string option"
  SiteID :: "string option"
  StartDateTime :: "int option"
  EndDateTime :: "int option"
  ErrorType :: "string option"
  Search :: "string option"
  Limit :: int
  Skip :: int
  Sort :: "string option"
  OnlyRecordCount :: bool

record InErrorFilter =
  filter_issuer :: "bool option"
  filter_chargeBoxIDs :: "string list option"
  filter_userIDs :: "string list option"
  filter_siteAreaIDs :: "string list option"
  filter_siteIDs :: "string list option"
  filter_startDateTime :: "int option"
  filter_endDateTime :: "int option"
  filter_errorType :: "ErrorTypeEntry list"
  filter_search :: "string option"

record DbParams =
  db_limit :: int
  db_skip :: int
  db_sort :: "string option"
  db_onlyRecordCount :: bool

record 'a DataResult =
  result_count :: int
  result :: "'a list"

text \<open>JavaScript's \<^verbatim>\<open>s.split('|')\<close> on a non-empty string.\<close>

fun jsSplit :: "char \<Rightarrow> string \<Rightarrow> string list" where
  "jsSplit sep [] = [[]]"
| "jsSplit sep (c # cs) =
     (if c = sep then [] # jsSplit sep cs
      else (case jsSplit sep cs of [] \<Rightarrow> [[c]] | w # ws \<Rightarrow> (c # w) # ws))"

definition splitPipe :: "string option \<Rightarrow> string list option" where
  "splitPipe s = (if truthy s then map_option (jsSplit (CHR ''|'')) s else None)"

text \<open>
  The collaborators of the query that are not under the sources: the component test and
  the site scoping of \<^verbatim>\<open>Utils\<close> and \<^verbatim>\<open>Authorizations\<close>, the paginated query of the store
  and the response-shaping pass of \<^verbatim>\<open>TransactionSecurity\<close>.
\<close>

record QueryCollaborators =
  isComponentActiveFromToken :: "UserToken \<Rightarrow> TenantComponents \<Rightarrow> bool"
  getAuthorizedSiteAdminIDs :: "UserToken \<Rightarrow> string list option \<Rightarrow> string list"
  getTransactionsInError :: "state \<Rightarrow> InErrorFilter \<Rightarrow> DbParams \<Rightarrow> Transaction DataResult"
  filterTransactionsResponse :: "UserToken \<Rightarrow> Transaction DataResult \<Rightarrow> Transaction DataResult"

text \<open>
  Lines 665 to 703: the filter object handed to the store, that is
  \<^verbatim>\<open>{ ...filter, search: filteredRequest.Search }\<close>.
\<close>

definition transactionsInErrorFilter ::
  "QueryCollaborators \<Rightarrow> UserToken \<Rightarrow> InErrorRequest \<Rightarrow> InErrorFilter" where
  "transactionsInErrorFilter q u r =
     (let organization = isComponentActiveFromToken q u ORGANIZATION;
          types = [LONG_INACTIVITY, NEGATIVE_ACTIVITY, NEGATIVE_DURATION, OVER_CONSUMPTION,
                   INVALID_START_DATE, NO_CONSUMPTION, MISSING_USER]
                  @ (if isComponentActiveFromToken q u PRICING then [MISSING_PRICE] else [])
                  @ (if isComponentActiveFromToken q u BILLING then [NO_BILLING_DATA] else [])
      in \<lparr>filter_issuer = Some True,
          filter_chargeBoxIDs = splitPipe (ChargeBoxID r),
          filter_userIDs = splitPipe (UserID r),
          filter_siteAreaIDs = (if organization then splitPipe (SiteAreaID r) else None),
          filter_siteIDs =
            (if organization
             then Some (getAuthorizedSiteAdminIDs q u (splitPipe (SiteID r))) else None),
          filter_startDateTime = StartDateTime r,
          filter_endDateTime = EndDateTime r,
          filter_errorType =
            (case splitPipe (ErrorType r) of
               Some requested \<Rightarrow> map Requested requested
             | None \<Rightarrow> map Known types),
          filter_search = Search r\<rparr>)"

text \<open>Lines 712 to 715: \<^verbatim>\<open>transactions.result.length = 100\<close> cuts the array.\<close>

definition limitTo100 :: "'a DataResult \<Rightarrow> 'a DataResult" where
  "limitTo100 txs =
     (if length (result txs) > 100 then txs\<lparr>result := take 100 (result txs)\<rparr> else txs)"

definition handleGetTransactionsInError ::
  "Authorizations \<Rightarrow> QueryCollaborators \<Rightarrow> UserToken \<Rightarrow> InErrorRequest \<Rightarrow> state
     \<Rightarrow> error + Transaction DataResult" where
  "handleGetTransactionsInError auth q u r st =
     (if \<not> canListTransactionsInError auth u
      then Inl (AppAuthError LIST TRANSACTIONS ''handleGetTransactionsInError'')
      else Inr (limitTo100
                 (filterTransactionsResponse q u
                    (getTransactionsInError q st (transactionsInErrorFilter q u r)
                       \<lparr>db_limit = Limit r, db_skip = Skip r, db_sort = Sort r,
                        db_onlyRecordCount = OnlyRecordCount r\<rparr>))))"

section \<open>CSV export\<close>

text \<open>
  What \<^verbatim>\<open>convertToCSV\<close> takes from outside the sources: \<^verbatim>\<open>Constants.CSV_SEPARATOR\<close>,
  \<^verbatim>\<open>Cypher.hash\<close>, \<^verbatim>\<open>Utils.buildUserFullName\<close>, the two formats of \<^verbatim>\<open>moment\<close> and the
  rendering of a number in a template string.
\<close>

record CsvEnvironment =
  CSV_SEPARATOR :: string
  hash :: "string \<Rightarrow> string"
  buildUserFullName :: "User \<Rightarrow> string"
  formatDate :: "int \<Rightarrow> string"
  formatTime :: "int \<Rightarrow> string"
  numberToString :: "real \<Rightarrow> string"

text \<open>\<^verbatim>\<open>Math.round\<close>: the nearest integer, a half rounded up.\<close>

definition mathRound :: "real \<Rightarrow> real" where
  "mathRound x = of_int \<lfloor>x + 1 / 2\<rfloor>"

definition csvHeaderColumns :: "string list" where
  "csvHeaderColumns =
     [''ID'', ''Charging Station'', ''Connector'', ''User ID'', ''User'', ''Start Date'',
      ''Start Time'', ''End Date'', ''End Time'', ''Total Consumption (kW.h)'',
      ''Total Duration (Mins)'', ''Total Inactivity (Mins)'', ''Price'', ''Price Unit'']"

text \<open>Lines 730 to 736: the cells that do not read \<^verbatim>\<open>transaction.stop\<close>.\<close>

definition startCells :: "CsvEnvironment \<Rightarrow> Transaction \<Rightarrow> string list" where
  "startCells env t =
     [numberToString env (of_int (transaction_id t)),
      chargeBoxID t,
      numberToString env (of_int (transaction_connectorId t)),
      (case user t of None \<Rightarrow> [] | Some usr \<Rightarrow> hash env (user_id usr)),
      (case user t of None \<Rightarrow> [] | Some usr \<Rightarrow> buildUserFullName env usr),
      formatDate env (timestamp t),
      formatTime env (timestamp t)]"

text \<open>Lines 737 to 743: the cells of the form \<^verbatim>\<open>transaction.stop ? ... : ''\<close>.\<close>

definition stopCells :: "CsvEnvironment \<Rightarrow> Transaction \<Rightarrow> string list" where
  "stopCells env t =
     [(case stop t of None \<Rightarrow> [] | Some s \<Rightarrow> formatDate env (stop_timestamp s)),
      (case stop t of None \<Rightarrow> [] | Some s \<Rightarrow> formatTime env (stop_timestamp s)),
      (case stop t of None \<Rightarrow> []
       | Some s \<Rightarrow> numberToString env
           (mathRound (if totalConsumptionWh s \<noteq> 0 then totalConsumptionWh s / 1000 else 0))),
      (case stop t of None \<Rightarrow> []
       | Some s \<Rightarrow> numberToString env
           (mathRound (if totalDurationSecs s \<noteq> 0 then totalDurationSecs s / 60 else 0))),
      (case stop t of None \<Rightarrow> []
       | Some s \<Rightarrow> numberToString env
           (mathRound (if totalInactivitySecs s \<noteq> 0 then totalInactivitySecs s / 60 else 0))),
      (case stop t of None \<Rightarrow> []
       | Some s \<Rightarrow> numberToString env (mathRound (price s * 100) / 100)),
      (case stop t of None \<Rightarrow> [] | Some s \<Rightarrow> priceUnit s)]"

text \<open>Cells joined by the separator, the last one closed by carriage return and line feed.\<close>

fun csvLine :: "string \<Rightarrow> string list \<Rightarrow> string" where
  "csvLine sep [] = []"
| "csvLine sep [c] = c @ [CHR 0x0D, CHR 0x0A]"
| "csvLine sep (c # cs) = c @ sep @ csvLine sep cs"

definition csvRow :: "CsvEnvironment \<Rightarrow> Transaction \<Rightarrow> string" where
  "csvRow env t = csvLine (CSV_SEPARATOR env) (startCells env t @ stopCells env t)"

definition convertToCSV :: "CsvEnvironment \<Rightarrow> Transaction list \<Rightarrow> bool \<Rightarrow> string" where
  "convertToCSV env txs writeHeader =
     (if writeHeader then csvLine (CSV_SEPARATOR env) csvHeaderColumns else [])
     @ concat (map (csvRow env) txs)"

section \<open>Notions the properties are stated with\<close>

text \<open>
  An id that the loop of \<^verbatim>\<open>deleteTransactions\<close> rejects in the given state: the transaction
  is missing, the refund integration is there and refuses, or the billing integration is
  there and the transaction carries an invoice.
\<close>

definition individuallyIneligible :: "Integrations \<Rightarrow> state \<Rightarrow> int \<Rightarrow> bool" where
  "individuallyIneligible integ st tid =
     (case getTransaction st tid of
        None \<Rightarrow> True
      | Some t \<Rightarrow> refundBlocksDeletion integ t \<or> billingBlocksDeletion integ t)"

text \<open>
  The same with the third case read as "carries an invoice", whatever integrations the
  tenant has.
\<close>

definition missingBlockedOrInvoiced :: "Integrations \<Rightarrow> state \<Rightarrow> int \<Rightarrow> bool" where
  "missingBlockedOrInvoiced integ st tid =
     (case getTransaction st tid of
        None \<Rightarrow> True
      | Some t \<Rightarrow> refundBlocksDeletion integ t \<or> hasInvoice t)"

text \<open>
  What the station store holds for a connector: \<open>None\<close> when the station or the connector
  does not exist, \<open>Some None\<close> for a free connector, \<open>Some (Some i)\<close> for one bound to
  transaction \<open>i\<close>.
\<close>

definition connectorBinding :: "state \<Rightarrow> string \<Rightarrow> int \<Rightarrow> int option option" where
  "connectorBinding st sid cid =
     (case getChargingStation st sid of
        None \<Rightarrow> None
      | Some cs \<Rightarrow> map_option currentTransactionID (getConnectorFromID cs cid))"

text \<open>
  The contracts of the two collaborators of the in-error query: the store returns only
  locally issued transactions when the filter asks for them, and the response-shaping pass
  does not turn a locally issued transaction into a roamed one.
\<close>

definition honoursIssuerFilter :: "QueryCollaborators \<Rightarrow> bool" where
  "honoursIssuerFilter q =
     (\<forall>s f p. filter_issuer f = Some True \<longrightarrow>
        (\<forall>t\<in>set (result (getTransactionsInError q s f p)). issuer t))"

definition shapingKeepsIssuer :: "QueryCollaborators \<Rightarrow> bool" where
  "shapingKeepsIssuer q =
     (\<forall>u x. (\<forall>t\<in>set (result x). issuer t) \<longrightarrow>
        (\<forall>t\<in>set (result (filterTransactionsResponse q u x)). issuer t))"

text \<open>
  The contract of the refund integration's \<^verbatim>\<open>canBeDeleted\<close>, which is not under the sources:
  a transaction with a \<^verbatim>\<open>refundId\<close> and a status other than \<^verbatim>\<open>CANCELLED\<close> may not be
  deleted (sections 2 and 3).
\<close>

definition refusesRefunded :: "RefundIntegration \<Rightarrow> bool" where
  "refusesRefunded rc = (\<forall>t. alreadyRefunded t \<longrightarrow> \<not> canBeDeleted rc t)"

text \<open>
  The contract of the roaming collaborator for one push: called on the transaction and its
  station as the handler reads them, it succeeds and leaves a CDR id in the OCPI data.
\<close>

definition collaboratorSetsCdrId ::
  "(Transaction \<Rightarrow> ChargingStation \<Rightarrow> string + OcpiData) \<Rightarrow> state \<Rightarrow> int \<Rightarrow> bool" where
  "collaboratorSetsCdrId processOCPITransaction st tid =
     (case getTransaction st tid of
        None \<Rightarrow> False
      | Some t \<Rightarrow>
          (case getChargingStation st (chargeBoxID t) of
             None \<Rightarrow> False
           | Some chargingStation \<Rightarrow>
               (case processOCPITransaction t chargingStation of
                  Inl failure \<Rightarrow> False
                | Inr od \<Rightarrow> cdrAlreadyPushed od)))"

subsection \<open>Concrete stores and collaborators\<close>

definition emptyStore :: state where
  "emptyStore =
     \<lparr>transactions = Map.empty, chargingStations = Map.empty, users = Map.empty,
      snapshotSupplied = (\<lambda>i. True), logs = [], refundCalls = [], ocpiCalls = []\<rparr>"

definition activeTransaction :: "int \<Rightarrow> Transaction" where
  "activeTransaction i =
     \<lparr>transaction_id = i, chargeBoxID = ''S1'', transaction_connectorId = 1, user = None,
      timestamp = 0, stop = None, issuer = True, refundData = None, billingData = None,
      ocpiData = None, chargeBox = None\<rparr>"

definition completedTransaction :: "int \<Rightarrow> Transaction" where
  "completedTransaction i =
     (activeTransaction i)
       \<lparr>stop := Some \<lparr>stop_timestamp = 3600, totalConsumptionWh = 11000,
                      totalDurationSecs = 3600, totalInactivitySecs = 0, price = 3,
                      priceUnit = ''EUR''\<rparr>\<rparr>"

definition invoicedTransaction :: "int \<Rightarrow> Transaction" where
  "invoicedTransaction i =
     (completedTransaction i)\<lparr>billingData := Some \<lparr>invoiceID = Some ''INV-1''\<rparr>\<rparr>"

definition refundedTransaction :: "int \<Rightarrow> Transaction" where
  "refundedTransaction i =
     (completedTransaction i)
       \<lparr>refundData := Some \<lparr>refundId = Some ''R1'', status = Some SUBMITTED\<rparr>\<rparr>"

definition roamingTransaction :: "int \<Rightarrow> Transaction" where
  "roamingTransaction i = (completedTransaction i)\<lparr>ocpiData := Some \<lparr>cdr = None\<rparr>\<rparr>"

definition externalTransaction :: "int \<Rightarrow> Transaction" where
  "externalTransaction i = (completedTransaction i)\<lparr>issuer := False\<rparr>"

text \<open>A roaming collaborator that sends the CDR and records its id.\<close>

definition sendCdr :: "Transaction \<Rightarrow> ChargingStation \<Rightarrow> string + OcpiData" where
  "sendCdr t cs = Inr \<lparr>cdr = Some \<lparr>cdr_id = Some ''CDR-1''\<rparr>\<rparr>"

definition stationS1 :: "int option \<Rightarrow> ChargingStation" where
  "stationS1 occupant =
     \<lparr>station_id = ''S1'',
      connectors = [\<lparr>connectorId = 1, currentTransactionID = occupant\<rparr>,
                    \<lparr>connectorId = 2, currentTransactionID = None\<rparr>]\<rparr>"

definition storeWith :: "int \<Rightarrow> Transaction \<Rightarrow> int option \<Rightarrow> state" where
  "storeWith i t occupant =
     emptyStore\<lparr>transactions := [i \<mapsto> t],
                chargingStations := [''S1'' \<mapsto> stationS1 occupant],
                users := [''U1'' \<mapsto> \<lparr>user_id = ''U1'', user_issuer = True\<rparr>]\<rparr>"

text \<open>
  A store with the refunded transaction 501, the active transaction 502 bound to connector 1
  of station S1, the invoiced transaction 601 and the completed transaction 700.
\<close>

definition sampleStore :: state where
  "sampleStore =
     emptyStore\<lparr>transactions :=
                  [501 \<mapsto> refundedTransaction 501, 502 \<mapsto> activeTransaction 502,
                   601 \<mapsto> invoicedTransaction 601, 700 \<mapsto> completedTransaction 700],
                chargingStations := [''S1'' \<mapsto> stationS1 (Some 502)],
                users := [''U1'' \<mapsto> \<lparr>user_id = ''U1'', user_issuer = True\<rparr>]\<rparr>"

text \<open>The same store, read without station snapshots.\<close>

definition sampleStoreWithoutSnapshots :: state where
  "sampleStoreWithoutSnapshots = sampleStore\<lparr>snapshotSupplied := (\<lambda>i. False)\<rparr>"

definition noIntegrations :: Integrations where
  "noIntegrations = \<lparr>refundImpl = None, billingImpl = None\<rparr>"

text \<open>A refund integration that refuses the deletion of refunded transactions and refunds all it is given.\<close>

definition refundConnector :: RefundIntegration where
  "refundConnector = \<lparr>canBeDeleted = (\<lambda>t. \<not> alreadyRefunded t), refund = (\<lambda>uid txs. Inr txs)\<rparr>"

definition bothIntegrations :: Integrations where
  "bothIntegrations = \<lparr>refundImpl = Some refundConnector, billingImpl = Some BillingIntegration\<rparr>"

definition billingOnly :: Integrations where
  "billingOnly = \<lparr>refundImpl = None, billingImpl = Some BillingIntegration\<rparr>"

definition admin :: UserToken where
  "admin = \<lparr>token_id = ''U1'', tenantID = ''T1''\<rparr>"

definition operator :: UserToken where
  "operator = \<lparr>token_id = ''U2'', tenantID = ''T1''\<rparr>"

definition allowAll :: Authorizations where
  "allowAll =
     \<lparr>canRefundTransaction = (\<lambda>u t. True), canUpdateTransaction = (\<lambda>u. True),
      canDeleteTransaction = (\<lambda>u. True), canListTransactionsInError = (\<lambda>u. True)\<rparr>"

text \<open>
  Collaborators of the in-error query over a collection of 150 local transactions and one
  roamed transaction; the store applies the issuer filter, the shaping pass keeps all.
\<close>

definition sampleQuery :: QueryCollaborators where
  "sampleQuery =
     \<lparr>isComponentActiveFromToken = (\<lambda>u c. False),
      getAuthorizedSiteAdminIDs = (\<lambda>u sites. []),
      getTransactionsInError =
        (\<lambda>st f p.
           \<lparr>result_count = 150,
            result = filter (\<lambda>t. filter_issuer f = None \<or> filter_issuer f = Some (issuer t))
                       (externalTransaction 2 # replicate 150 (completedTransaction 1))\<rparr>),
      filterTransactionsResponse = (\<lambda>u x. x)\<rparr>"

definition sampleRequest :: InErrorRequest where
  "sampleRequest =
     \<lparr>ChargeBoxID = Some ''S1|S2'', UserID = None, SiteAreaID = None, SiteID = None,
      StartDateTime = None, EndDateTime = None, ErrorType = None, Search = None,
      Limit = 200, Skip = 0, Sort = None, OnlyRecordCount = False\<rparr>"

text \<open>A CSV environment with a comma as separator and decimal rendering of natural numbers.\<close>

function showNat :: "nat \<Rightarrow> string" where
  "showNat n =
     (if n < 10 then [''0123456789'' ! n]
      else showNat (n div 10) @ [''0123456789'' ! (n mod 10)])"
  by pat_completeness auto
termination
  by (relation "measure id") auto

declare showNat.simps [simp del]

definition sampleCsv :: CsvEnvironment where
  "sampleCsv =
     \<lparr>CSV_SEPARATOR = '','',
      hash = (\<lambda>s. ''#'' @ s),
      buildUserFullName = user_id,
      formatDate = (\<lambda>ts. ''1970-01-01''),
      formatTime = (\<lambda>ts. ''00:00:00''),
      numberToString = (\<lambda>x. showNat (nat \<lfloor>x\<rfloor>))\<rparr>"

definition denyAll :: Authorizations where
  "denyAll =
     \<lparr>canRefundTransaction = (\<lambda>u t. False), canUpdateTransaction = (\<lambda>u. False),
      canDeleteTransaction = (\<lambda>u. False), canListTransactionsInError = (\<lambda>u. False)\<rparr>"

section \<open>Properties of the deletion loop\<close>

lemma transactions_logEntry [simp]: "transactions (logEntry l m msg a st) = transactions st"
  by (simp add: logEntry_def)

lemma chargingStations_logEntry [simp]: "chargingStations (logEntry l m msg a st) = chargingStations st"
  by (simp add: logEntry_def)

lemma transactions_saveChargingStation [simp]:
  "transactions (saveChargingStation cs st) = transactions st"
  by (simp add: saveChargingStation_def)

lemma transactions_releaseConnector [simp]: "transactions (releaseConnector t st) = transactions st"
  by (simp add: releaseConnector_def split: option.splits)

lemma deleteStep_rejected:
  "individuallyIneligible integ st tid \<Longrightarrow>
   \<exists>msg. deleteStep integ tid (td, ie, st) =
     (td, Suc ie, logEntry ERROR ''handleDeleteTransactions'' msg None st)"
  by (auto simp: deleteStep_def individuallyIneligible_def split: option.splits)

lemma deleteStep_accepted:
  "\<not> individuallyIneligible integ st tid \<Longrightarrow>
   \<exists>st'. deleteStep integ tid (td, ie, st) = (td @ [tid], ie, st') \<and>
     transactions st' = transactions st \<and> transactions st tid \<noteq> None"
  by (auto simp: deleteStep_def individuallyIneligible_def getTransaction_def split: option.splits)

lemma deleteStep_transactions:
  "deleteStep integ tid (td, ie, st) = (td', ie', st') \<Longrightarrow> transactions st' = transactions st"
  by (cases "individuallyIneligible integ st tid")
     (use deleteStep_rejected[of integ st tid td ie] deleteStep_accepted[of integ st tid td ie] in auto)

lemma deleteLoop_transactions:
  "deleteLoop integ ids (td, ie, st) = (td', ie', st') \<Longrightarrow> transactions st' = transactions st"
proof (induction ids arbitrary: td ie st)
  case Nil
  then show ?case by simp
next
  case (Cons a ids)
  obtain td1 ie1 st1 where s: "deleteStep integ a (td, ie, st) = (td1, ie1, st1)"
    by (metis prod_cases3)
  with Cons show ?case by (simp add: deleteStep_transactions[OF s])
qed

lemma deleteLoop_rejected:
  assumes "\<And>s. transactions s = transactions st \<Longrightarrow> individuallyIneligible integ s tid"
    and "deleteLoop integ ids (td, ie, st) = (td', ie', st')"
    and "tid \<notin> set td"
  shows "tid \<notin> set td' \<and> ie + count_list ids tid \<le> ie'"
  using assms
proof (induction ids arbitrary: td ie st)
  case Nil
  then show ?case by simp
next
  case (Cons a ids)
  obtain td1 ie1 st1 where s: "deleteStep integ a (td, ie, st) = (td1, ie1, st1)"
    by (metis prod_cases3)
  have tr: "transactions st1 = transactions st" by (rule deleteStep_transactions[OF s])
  have loop: "deleteLoop integ ids (td1, ie1, st1) = (td', ie', st')"
    using Cons.prems(2) s by simp
  have inel: "\<And>s. transactions s = transactions st1 \<Longrightarrow> individuallyIneligible integ s tid"
    using Cons.prems(1) tr by simp
  show ?case
  proof (cases "a = tid")
    case True
    have "individuallyIneligible integ st tid" using Cons.prems(1) by simp
    from deleteStep_rejected[OF this, of td ie] s True
    have "td1 = td" "ie1 = Suc ie" by auto
    with Cons.IH[OF inel loop] Cons.prems(3) True show ?thesis by simp
  next
    case False
    have "tid \<notin> set td1 \<and> ie \<le> ie1"
      using s False Cons.prems(3)
        deleteStep_rejected[of integ st a td ie] deleteStep_accepted[of integ st a td ie]
      by (cases "individuallyIneligible integ st a") auto
    with Cons.IH[OF inel loop] False show ?thesis by simp
  qed
qed

lemma find_freeConnector_other:
  "cid' \<noteq> cid \<Longrightarrow>
   find (\<lambda>c. connectorId c = cid) (freeConnector cs cid') = find (\<lambda>c. connectorId c = cid) cs"
  by (induction cs) auto

lemma find_freeConnector_same:
  "find (\<lambda>c. connectorId c = cid) cs = Some c \<Longrightarrow>
   find (\<lambda>c. connectorId c = cid) (freeConnector cs cid) = Some (c\<lparr>currentTransactionID := None\<rparr>)"
  by (induction cs) (auto split: if_splits)

lemma connectorBinding_logEntry [simp]:
  "connectorBinding (logEntry l m msg a st) = connectorBinding st"
  by (simp add: connectorBinding_def getChargingStation_def fun_eq_iff)

lemma connectorBinding_save_other:
  "station_id cs \<noteq> sid \<Longrightarrow>
   connectorBinding (saveChargingStation cs st) sid cid = connectorBinding st sid cid"
  by (simp add: connectorBinding_def getChargingStation_def saveChargingStation_def)

lemma connectorBinding_save_same:
  "connectorBinding (saveChargingStation cs st) (station_id cs) cid =
     map_option currentTransactionID (getConnectorFromID cs cid)"
  by (simp add: connectorBinding_def getChargingStation_def saveChargingStation_def
      getConnectorFromID_def)

lemma releaseConnector_binding:
  assumes "chargeBox t = None \<or> chargeBox t = getChargingStation st (chargeBoxID t)"
  shows "connectorBinding (releaseConnector t st) sid cid = connectorBinding st sid cid \<or>
         (connectorBinding st sid cid \<noteq> None \<and>
          connectorBinding (releaseConnector t st) sid cid = Some None)"
proof (cases "chargeBox t")
  case None
  then show ?thesis by (simp add: releaseConnector_def)
next
  case (Some cb)
  have cb: "getChargingStation st (chargeBoxID t) = Some cb" using assms Some by auto
  then have sid_cb: "station_id cb = chargeBoxID t"
    by (auto simp: getChargingStation_def)
  show ?thesis
  proof (cases "getConnectorFromID cb (transaction_connectorId t)")
    case None
    then show ?thesis using Some by (simp add: releaseConnector_def)
  next
    case found: (Some c)
    show ?thesis
    proof (cases "Some (transaction_id t) = currentTransactionID c")
      case False
      then show ?thesis using Some found by (simp add: releaseConnector_def)
    next
      case True
      let ?cb' = "checkAndFreeChargingStationConnector cb (transaction_connectorId t)"
      have rel: "releaseConnector t st = saveChargingStation ?cb' st"
        using Some found True by (simp add: releaseConnector_def)
      have sid': "station_id ?cb' = chargeBoxID t"
        using sid_cb by (simp add: checkAndFreeChargingStationConnector_def)
      show ?thesis
      proof (cases "sid = chargeBoxID t")
        case False
        then show ?thesis using rel sid' connectorBinding_save_other[of ?cb' sid st cid] by simp
      next
        case sid: True
        have old: "connectorBinding st sid cid = map_option currentTransactionID (getConnectorFromID cb cid)"
          using cb sid by (simp add: connectorBinding_def)
        have new: "connectorBinding (releaseConnector t st) sid cid =
                     map_option currentTransactionID (getConnectorFromID ?cb' cid)"
          using rel sid sid' connectorBinding_save_same[of ?cb' st cid] by simp
        show ?thesis
        proof (cases "cid = transaction_connectorId t")
          case False
          then have "getConnectorFromID ?cb' cid = getConnectorFromID cb cid"
            using find_freeConnector_other[of "transaction_connectorId t" cid "connectors cb"]
            by (simp add: getConnectorFromID_def checkAndFreeChargingStationConnector_def)
          then show ?thesis using old new by simp
        next
          case cid: True
          have "getConnectorFromID ?cb' cid = Some (c\<lparr>currentTransactionID := None\<rparr>)"
            using found cid find_freeConnector_same[of cid "connectors cb" c]
            by (simp add: getConnectorFromID_def checkAndFreeChargingStationConnector_def)
          then show ?thesis using old new found cid by simp
        qed
      qed
    qed
  qed
qed

lemma getTransaction_chargeBox:
  "getTransaction st tid = Some t \<Longrightarrow>
   chargeBox t = None \<or> chargeBox t = getChargingStation st (chargeBoxID t)"
  by (auto simp: getTransaction_def attachedSnapshot_def)

lemma deleteStep_binding:
  assumes "deleteStep integ a (td, ie, st) = (td1, ie1, st1)"
  shows "connectorBinding st1 sid cid = connectorBinding st sid cid \<or>
         (connectorBinding st sid cid \<noteq> None \<and> connectorBinding st1 sid cid = Some None)"
proof (cases "getTransaction st a")
  case None
  then show ?thesis using assms by (auto simp: deleteStep_def)
next
  case (Some t)
  note rb = releaseConnector_binding[OF getTransaction_chargeBox[OF Some], of sid cid]
  show ?thesis using assms Some rb
    by (auto simp: deleteStep_def split: if_splits)
qed

lemma deleteLoop_binding_free:
  "deleteLoop integ ids (td, ie, st) = (td', ie', st') \<Longrightarrow>
   connectorBinding st sid cid = Some None \<Longrightarrow> connectorBinding st' sid cid = Some None"
proof (induction ids arbitrary: td ie st)
  case Nil
  then show ?case by simp
next
  case (Cons a ids)
  obtain td1 ie1 st1 where s: "deleteStep integ a (td, ie, st) = (td1, ie1, st1)"
    by (metis prod_cases3)
  have "connectorBinding st1 sid cid = Some None"
    using deleteStep_binding[OF s, of sid cid] Cons.prems(2) by auto
  moreover have "deleteLoop integ ids (td1, ie1, st1) = (td', ie', st')"
    using Cons.prems(1) s by simp
  ultimately show ?case using Cons.IH by blast
qed

lemma deleteStep_releases:
  assumes s: "deleteStep integ tid (td, ie, st) = (td1, ie1, st1)"
    and tx: "transactions st tid = Some d" and active: "stop d = None"
    and supplied: "snapshotSupplied st tid"
    and bind: "connectorBinding st (chargeBoxID d) (transaction_connectorId d) = Some (Some tid) \<or>
               connectorBinding st (chargeBoxID d) (transaction_connectorId d) = Some None"
    and marked: "td1 \<noteq> td"
  shows "connectorBinding st1 (chargeBoxID d) (transaction_connectorId d) = Some None"
proof -
  let ?sid = "chargeBoxID d" and ?cid = "transaction_connectorId d"
  obtain cb where cb: "getChargingStation st ?sid = Some cb"
    using bind by (auto simp: connectorBinding_def split: option.splits)
  let ?t = "d\<lparr>transaction_id := tid, chargeBox := Some cb\<rparr>"
  have get: "getTransaction st tid = Some ?t"
    using tx cb supplied by (simp add: getTransaction_def attachedSnapshot_def)
  have st1: "st1 = releaseConnector ?t st"
    using s marked get active by (auto simp: deleteStep_def split: if_splits)
  obtain c where c: "getConnectorFromID cb ?cid = Some c"
    using bind cb by (auto simp: connectorBinding_def)
  have cur: "currentTransactionID c = Some tid \<or> currentTransactionID c = None"
    using bind cb c by (auto simp: connectorBinding_def)
  have sid_cb: "station_id cb = ?sid" using cb by (auto simp: getChargingStation_def)
  show ?thesis
  proof (cases "currentTransactionID c = Some tid")
    case True
    let ?cb' = "checkAndFreeChargingStationConnector cb ?cid"
    have "st1 = saveChargingStation ?cb' st"
      using st1 c True by (simp add: releaseConnector_def)
    moreover have "station_id ?cb' = ?sid"
      using sid_cb by (simp add: checkAndFreeChargingStationConnector_def)
    moreover have "getConnectorFromID ?cb' ?cid = Some (c\<lparr>currentTransactionID := None\<rparr>)"
      using c find_freeConnector_same[of ?cid "connectors cb" c]
      by (simp add: getConnectorFromID_def checkAndFreeChargingStationConnector_def)
    ultimately show ?thesis
      using connectorBinding_save_same[of ?cb' st ?cid] by simp
  next
    case False
    then have "currentTransactionID c = None" using cur by simp
    then have "st1 = st" using st1 c by (simp add: releaseConnector_def)
    then show ?thesis using bind cb c \<open>currentTransactionID c = None\<close>
      by (simp add: connectorBinding_def)
  qed
qed

lemma deleteStep_snapshotSupplied:
  "deleteStep integ a (td, ie, st) = (td1, ie1, st1) \<Longrightarrow> snapshotSupplied st1 = snapshotSupplied st"
  by (auto simp: deleteStep_def releaseConnector_def saveChargingStation_def logEntry_def
      split: option.splits if_splits)

lemma deleteStep_marks:
  "deleteStep integ a (td, ie, st) = (td1, ie1, st1) \<Longrightarrow> td1 = td \<or> td1 = td @ [a]"
  by (auto simp: deleteStep_def split: option.splits if_splits)

lemma deleteLoop_releases:
  assumes "deleteLoop integ ids (td, ie, st) = (td', ie', st')"
    and "transactions st tid = Some d" and "stop d = None"
    and "snapshotSupplied st tid"
    and "connectorBinding st (chargeBoxID d) (transaction_connectorId d) = Some (Some tid) \<or>
         connectorBinding st (chargeBoxID d) (transaction_connectorId d) = Some None"
    and "tid \<notin> set td" and "tid \<in> set td'"
  shows "connectorBinding st' (chargeBoxID d) (transaction_connectorId d) = Some None"
  using assms
proof (induction ids arbitrary: td ie st)
  case Nil
  then show ?case by simp
next
  case (Cons a ids)
  let ?sid = "chargeBoxID d" and ?cid = "transaction_connectorId d"
  obtain td1 ie1 st1 where s: "deleteStep integ a (td, ie, st) = (td1, ie1, st1)"
    by (metis prod_cases3)
  have loop: "deleteLoop integ ids (td1, ie1, st1) = (td', ie', st')"
    using Cons.prems(1) s by simp
  have tr: "transactions st1 tid = Some d"
    using deleteStep_transactions[OF s] Cons.prems(2) by simp
  have sup1: "snapshotSupplied st1 tid"
    using deleteStep_snapshotSupplied[OF s] Cons.prems(4) by simp
  have bind1: "connectorBinding st1 ?sid ?cid = Some (Some tid) \<or>
               connectorBinding st1 ?sid ?cid = Some None"
    using deleteStep_binding[OF s, of ?sid ?cid] Cons.prems(5) by auto
  show ?case
  proof (cases "tid \<in> set td1")
    case False
    show ?thesis by (rule Cons.IH[OF loop tr Cons.prems(3) sup1 bind1 False Cons.prems(7)])
  next
    case True
    then have "a = tid" "td1 \<noteq> td"
      using deleteStep_marks[OF s] Cons.prems(6) by auto
    then have "connectorBinding st1 ?sid ?cid = Some None"
      using deleteStep_releases[OF _ Cons.prems(2) Cons.prems(3) Cons.prems(4) Cons.prems(5),
          of integ td ie td1 ie1 st1] s
      by simp
    then show ?thesis using deleteLoop_binding_free[OF loop] by simp
  qed
qed

lemma storeDeleteTransactions_keeps:
  "tid \<notin> set ids \<Longrightarrow> transactions (snd (storeDeleteTransactions ids st)) tid = transactions st tid"
  by (simp add: storeDeleteTransactions_def)

lemma storeDeleteTransactions_removes:
  "tid \<in> set ids \<Longrightarrow> transactions (snd (storeDeleteTransactions ids st)) tid = None"
  by (simp add: storeDeleteTransactions_def)

lemma deleteTransactions_unfold:
  assumes "deleteLoop integ ids ([], 0, st) = (td, ie, st1)"
  shows "transactionsIDsToDelete integ ids st = td"
    and "inError (fst (deleteTransactions integ ids st)) = ie"
    and "inSuccess (fst (deleteTransactions integ ids st)) = fst (storeDeleteTransactions td st1)"
    and "transactions (snd (deleteTransactions integ ids st)) =
           transactions (snd (storeDeleteTransactions td st1))"
    and "chargingStations (snd (deleteTransactions integ ids st)) = chargingStations st1"
  using assms
  by (simp_all add: transactionsIDsToDelete_def deleteTransactions_def storeDeleteTransactions_def
      split: prod.splits)

lemma deleteTransactions_rejected:
  assumes inel: "\<And>s. transactions s = transactions st \<Longrightarrow> individuallyIneligible integ s tid"
  shows "tid \<notin> set (transactionsIDsToDelete integ ids st) \<and>
         transactions (snd (deleteTransactions integ ids st)) tid = transactions st tid \<and>
         count_list ids tid \<le> inError (fst (deleteTransactions integ ids st))"
proof -
  obtain td ie st1 where loop: "deleteLoop integ ids ([], 0, st) = (td, ie, st1)"
    by (metis prod_cases3)
  have r: "tid \<notin> set td \<and> 0 + count_list ids tid \<le> ie"
    by (rule deleteLoop_rejected[OF inel loop]) simp_all
  have "transactions st1 = transactions st" by (rule deleteLoop_transactions[OF loop])
  then show ?thesis
    using r deleteTransactions_unfold[OF loop] storeDeleteTransactions_keeps[of tid td st1]
    by simp
qed

lemma invoiced_ineligible:
  "transactions s tid = Some d \<Longrightarrow> hasInvoice d \<Longrightarrow> billingImpl integ \<noteq> None \<Longrightarrow>
   individuallyIneligible integ s tid"
  by (simp add: individuallyIneligible_def getTransaction_def billingBlocksDeletion_def hasInvoice_def)

subsection \<open>Unfolding on the concrete stores\<close>

lemmas sample_defs = sampleStore_def emptyStore_def refundedTransaction_def activeTransaction_def
  invoicedTransaction_def completedTransaction_def stationS1_def bothIntegrations_def
  refundConnector_def alreadyRefunded_def truthy_def

lemmas delete_defs = deleteTransactions_def transactionsIDsToDelete_def deleteStep_def
  getTransaction_def attachedSnapshot_def getChargingStation_def refundBlocksDeletion_def
  billingBlocksDeletion_def
  hasInvoice_def storeDeleteTransactions_def logEntry_def releaseConnector_def
  getConnectorFromID_def checkAndFreeChargingStationConnector_def saveChargingStation_def

lemmas refund_defs = handleRefundTransactions_def getTransaction_def attachedSnapshot_def
  getChargingStation_def
  getUser_def logEntry_def

lemmas cdr_defs = handlePushTransactionCdr_def getTransaction_def attachedSnapshot_def
  getChargingStation_def
  storeWith_def emptyStore_def roamingTransaction_def completedTransaction_def
  activeTransaction_def stationS1_def sendCdr_def allowAll_def logEntry_def saveTransaction_def
  cdrAlreadyPushed_def truthy_def persistedCdrPushed_def

lemmas query_defs = handleGetTransactionsInError_def transactionsInErrorFilter_def sampleQuery_def
  sampleRequest_def limitTo100_def splitPipe_def truthy_def allowAll_def

section \<open>Refund submission of a missing transaction\<close>

text \<open>
  Claim C1 says that a requested id without a transaction in the store is skipped with a log
  entry, the batch going on with the remaining ids and no error being raised for the missing
  id. The code does not do that: for the batch 503, 504 over a store that holds only 504,
  \<^verbatim>\<open>handleRefundTransactions\<close> ends with the \<open>TypeError\<close> of reading \<^verbatim>\<open>transaction.user\<close>
  of the absent transaction 503, whoever the caller and whatever the integrations; nothing is
  logged and 504 is never looked at.
\<close>

theorem refund_of_missing_transaction_throws:
  "handleRefundTransactions auth integ u (Some [503, 504])
     (storeWith 504 (completedTransaction 504) None)
     = (Inl TypeError, storeWith 504 (completedTransaction 504) None)"
  by (simp add: handleRefundTransactions_def getTransaction_def storeWith_def emptyStore_def)

section \<open>Deletion of invoiced transactions\<close>

text \<open>
  Claim C2, as amended: when a billing integration is configured for the tenant, a
  transaction of the store with a non-empty \<^verbatim>\<open>billingData.invoiceID\<close> is rejected by
  \<^verbatim>\<open>deleteTransactions\<close> whatever its refund state and whatever the refund integration says:
  its id is not among the ids handed to the bulk delete, the store still holds the
  transaction afterwards, and each occurrence of the id in the batch is counted in
  \<^verbatim>\<open>inError\<close>.
\<close>

theorem deleteTransactions_rejects_invoiced_under_billing:
  assumes "transactions st tid = Some d" and "hasInvoice d" and "billingImpl integ \<noteq> None"
  shows "tid \<notin> set (transactionsIDsToDelete integ ids st) \<and>
         transactions (snd (deleteTransactions integ ids st)) tid = Some d \<and>
         count_list ids tid \<le> inError (fst (deleteTransactions integ ids st))"
proof -
  have "\<And>s. transactions s = transactions st \<Longrightarrow> individuallyIneligible integ s tid"
    using assms by (simp add: invoiced_ineligible)
  from deleteTransactions_rejected[OF this, where ids=ids] assms(1) show ?thesis by simp
qed

text \<open>The hypotheses hold for the invoiced transaction 601 of a tenant with billing, asked for twice.\<close>

theorem deleteTransactions_rejects_invoiced_under_billing_witness:
  "transactions (storeWith 601 (invoicedTransaction 601) None) 601 = Some (invoicedTransaction 601) \<and>
   hasInvoice (invoicedTransaction 601) \<and> billingImpl billingOnly \<noteq> None \<and>
   601 \<notin> set (transactionsIDsToDelete billingOnly [601, 601] (storeWith 601 (invoicedTransaction 601) None)) \<and>
   transactions (snd (deleteTransactions billingOnly [601, 601] (storeWith 601 (invoicedTransaction 601) None))) 601
     = Some (invoicedTransaction 601) \<and>
   2 \<le> inError (fst (deleteTransactions billingOnly [601, 601] (storeWith 601 (invoicedTransaction 601) None)))"
proof -
  have h1: "transactions (storeWith 601 (invoicedTransaction 601) None) 601 = Some (invoicedTransaction 601)"
    by (simp add: storeWith_def emptyStore_def)
  have h2: "hasInvoice (invoicedTransaction 601)"
    by (simp add: hasInvoice_def invoicedTransaction_def truthy_def)
  have h3: "billingImpl billingOnly \<noteq> None" by (simp add: billingOnly_def)
  show ?thesis
    using deleteTransactions_rejects_invoiced_under_billing[OF h1 h2 h3, where ids="[601, 601]"] h1 h2 h3
    by simp
qed

text \<open>
  Without a billing integration the guard \<^verbatim>\<open>billingImpl &&\<close> of line 783 lets the invoiced
  transaction 601 through: it is deleted and counted in \<^verbatim>\<open>inSuccess\<close>.
\<close>

theorem deleteTransactions_deletes_invoiced_without_billing:
  "hasInvoice (invoicedTransaction 601) \<and>
   fst (deleteTransactions noIntegrations [601] (storeWith 601 (invoicedTransaction 601) None))
     = \<lparr>inSuccess = 1, inError = 0\<rparr> \<and>
   transactions (snd (deleteTransactions noIntegrations [601] (storeWith 601 (invoicedTransaction 601) None))) 601
     = None"
  by (simp add: hasInvoice_def invoicedTransaction_def completedTransaction_def activeTransaction_def
      truthy_def deleteTransactions_def deleteStep_def getTransaction_def attachedSnapshot_def
      getChargingStation_def
      storeWith_def emptyStore_def noIntegrations_def refundBlocksDeletion_def
      billingBlocksDeletion_def storeDeleteTransactions_def logEntry_def)

section \<open>Static eligibility\<close>

lemma individuallyIneligible_cong:
  assumes H: "\<forall>t cb. refundBlocksDeletion integ (t\<lparr>chargeBox := cb\<rparr>) = refundBlocksDeletion integ t"
    and tr: "transactions s = transactions st"
  shows "individuallyIneligible integ s tid = individuallyIneligible integ st tid"
proof (cases "transactions st tid")
  case None
  then show ?thesis using tr by (simp add: individuallyIneligible_def getTransaction_def)
next
  case (Some d)
  have rb: "\<And>cb. refundBlocksDeletion integ (d\<lparr>transaction_id := tid, chargeBox := cb\<rparr>) =
                 refundBlocksDeletion integ (d\<lparr>transaction_id := tid\<rparr>)"
    using H by simp
  show ?thesis using Some tr rb
    by (simp add: individuallyIneligible_def getTransaction_def billingBlocksDeletion_def
        hasInvoice_def)
qed

lemma deleteLoop_filter:
  assumes H: "\<forall>t cb. refundBlocksDeletion integ (t\<lparr>chargeBox := cb\<rparr>) = refundBlocksDeletion integ t"
  shows "deleteLoop integ ids (td, ie, s) = (td', ie', s') \<Longrightarrow> transactions s = transactions st \<Longrightarrow>
         td' = td @ filter (\<lambda>i. \<not> individuallyIneligible integ st i) ids \<and>
         ie' = ie + length (filter (individuallyIneligible integ st) ids)"
proof (induction ids arbitrary: td ie s)
  case Nil
  then show ?case by simp
next
  case (Cons a ids)
  obtain td1 ie1 s1 where step: "deleteStep integ a (td, ie, s) = (td1, ie1, s1)"
    by (metis prod_cases3)
  have loop: "deleteLoop integ ids (td1, ie1, s1) = (td', ie', s')"
    using Cons.prems(1) step by simp
  have tr1: "transactions s1 = transactions st"
    using deleteStep_transactions[OF step] Cons.prems(2) by simp
  have eq: "individuallyIneligible integ s a = individuallyIneligible integ st a"
    by (rule individuallyIneligible_cong[OF H Cons.prems(2)])
  show ?case
  proof (cases "individuallyIneligible integ st a")
    case True
    then have "td1 = td \<and> ie1 = Suc ie"
      using deleteStep_rejected[of integ s a td ie] step eq by auto
    with Cons.IH[OF loop tr1] True show ?thesis by simp
  next
    case False
    then have "td1 = td @ [a] \<and> ie1 = ie"
      using deleteStep_accepted[of integ s a td ie] step eq by auto
    with Cons.IH[OF loop tr1] False show ?thesis by simp
  qed
qed

lemma storeDeleteTransactions_count:
  "transactions s = transactions st \<Longrightarrow>
   fst (storeDeleteTransactions ids s) = fst (storeDeleteTransactions ids st)"
  by (simp add: storeDeleteTransactions_def)

section \<open>Accounting of a deletion batch\<close>

text \<open>
  Claim C4, as amended: take a batch of \<open>N\<close> ids of which \<open>M\<close> are individually
  ineligible, that is missing, blocked by the refund integration, or carrying an invoice
  while a billing integration is configured. Assume, as the claim does, that the bulk
  delete of the store removes every id it is given (the count it returns is the number of
  ids handed over), and that the verdict of the refund integration does not depend on the
  station snapshot attached to the transaction. Then \<^verbatim>\<open>deleteTransactions\<close> returns
  \<^verbatim>\<open>inSuccess\<close> \<open>= N - M\<close> and \<^verbatim>\<open>inError\<close> \<open>= M\<close>; it has no failing path, and the
  handler of an authorised caller answers with these counts and no error.
\<close>

theorem deleteTransactions_accounting:
  assumes H: "\<forall>t cb. refundBlocksDeletion integ (t\<lparr>chargeBox := cb\<rparr>) = refundBlocksDeletion integ t"
    and store: "fst (storeDeleteTransactions (transactionsIDsToDelete integ ids st) st)
                  = length (transactionsIDsToDelete integ ids st)"
  shows "fst (deleteTransactions integ ids st) =
           \<lparr>inSuccess = length ids - length (filter (individuallyIneligible integ st) ids),
            inError = length (filter (individuallyIneligible integ st) ids)\<rparr> \<and>
         (canDeleteTransaction auth u \<longrightarrow>
            fst (handleDeleteTransactions auth integ u ids st) = Inr (fst (deleteTransactions integ ids st)))"
proof -
  obtain td ie st1 where loop: "deleteLoop integ ids ([], 0, st) = (td, ie, st1)"
    by (metis prod_cases3)
  note u = deleteTransactions_unfold[OF loop]
  have f: "td = filter (\<lambda>i. \<not> individuallyIneligible integ st i) ids"
          "ie = length (filter (individuallyIneligible integ st) ids)"
    using deleteLoop_filter[OF H loop, of st] by simp_all
  have len: "length td = length ids - ie"
    using f sum_length_filter_compl[of "individuallyIneligible integ st" ids] by simp
  have "fst (storeDeleteTransactions td st1) = fst (storeDeleteTransactions td st)"
    by (rule storeDeleteTransactions_count[OF deleteLoop_transactions[OF loop]])
  then have "inSuccess (fst (deleteTransactions integ ids st)) = length ids - ie"
    using store u(1) u(3) len by simp
  then have r: "fst (deleteTransactions integ ids st) = \<lparr>inSuccess = length ids - ie, inError = ie\<rparr>"
    using u(2) by (cases "fst (deleteTransactions integ ids st)") simp
  have "canDeleteTransaction auth u \<longrightarrow>
          fst (handleDeleteTransactions auth integ u ids st) = Inr (fst (deleteTransactions integ ids st))"
    by (simp add: handleDeleteTransactions_def case_prod_beta)
  then show ?thesis using r f(2) by simp
qed

text \<open>
  The batch 501, 502, 601, 700, 999 over the sample store, with both integrations: 501 is
  refunded, 601 invoiced and 999 missing, so two are deleted and three are in error.
\<close>

theorem deleteTransactions_accounting_witness:
  "(\<forall>t cb. refundBlocksDeletion bothIntegrations (t\<lparr>chargeBox := cb\<rparr>)
             = refundBlocksDeletion bothIntegrations t) \<and>
   fst (storeDeleteTransactions
          (transactionsIDsToDelete bothIntegrations [501, 502, 601, 700, 999] sampleStore) sampleStore)
     = length (transactionsIDsToDelete bothIntegrations [501, 502, 601, 700, 999] sampleStore) \<and>
   canDeleteTransaction allowAll admin \<and>
   filter (individuallyIneligible bothIntegrations sampleStore) [501, 502, 601, 700, 999]
     = [501, 601, 999] \<and>
   fst (handleDeleteTransactions allowAll bothIntegrations admin [501, 502, 601, 700, 999] sampleStore)
     = Inr \<lparr>inSuccess = 2, inError = 3\<rparr>"
proof -
  have h1: "\<forall>t cb. refundBlocksDeletion bothIntegrations (t\<lparr>chargeBox := cb\<rparr>)
                  = refundBlocksDeletion bothIntegrations t"
    by (simp add: refundBlocksDeletion_def bothIntegrations_def refundConnector_def alreadyRefunded_def)
  have td: "transactionsIDsToDelete bothIntegrations [501, 502, 601, 700, 999] sampleStore = [502, 700]"
    by (simp add: sample_defs delete_defs)
  have h2: "fst (storeDeleteTransactions
                  (transactionsIDsToDelete bothIntegrations [501, 502, 601, 700, 999] sampleStore) sampleStore)
              = length (transactionsIDsToDelete bothIntegrations [501, 502, 601, 700, 999] sampleStore)"
    unfolding td by (simp add: storeDeleteTransactions_def sampleStore_def emptyStore_def)
  have h3: "canDeleteTransaction allowAll admin" by (simp add: allowAll_def)
  have m: "filter (individuallyIneligible bothIntegrations sampleStore) [501, 502, 601, 700, 999]
             = [501, 601, 999]"
    by (simp add: sample_defs delete_defs individuallyIneligible_def)
  show ?thesis
    using deleteTransactions_accounting[OF h1 h2, of allowAll admin] h1 h2 h3 m by simp
qed

text \<open>
  With "carrying an invoice" read as written, the accounting fails for a tenant without
  billing integration: the invoiced transaction 601 is deleted, so \<open>N = 1\<close> and \<open>M = 1\<close>
  but \<^verbatim>\<open>inSuccess\<close> is 1 and \<^verbatim>\<open>inError\<close> is 0.
\<close>

theorem deleteTransactions_accounting_invoice_without_billing:
  "fst (storeDeleteTransactions
          (transactionsIDsToDelete noIntegrations [601] (storeWith 601 (invoicedTransaction 601) None))
          (storeWith 601 (invoicedTransaction 601) None))
     = length (transactionsIDsToDelete noIntegrations [601] (storeWith 601 (invoicedTransaction 601) None)) \<and>
   length (filter (missingBlockedOrInvoiced noIntegrations (storeWith 601 (invoicedTransaction 601) None)) [601]) = 1 \<and>
   fst (deleteTransactions noIntegrations [601] (storeWith 601 (invoicedTransaction 601) None))
     \<noteq> \<lparr>inSuccess = length [601::int]
            - length (filter (missingBlockedOrInvoiced noIntegrations
                                (storeWith 601 (invoicedTransaction 601) None)) [601]),
          inError = length (filter (missingBlockedOrInvoiced noIntegrations
                                      (storeWith 601 (invoicedTransaction 601) None)) [601])\<rparr> \<and>
   fst (handleDeleteTransactions allowAll noIntegrations admin [601] (storeWith 601 (invoicedTransaction 601) None))
     = Inr \<lparr>inSuccess = 1, inError = 0\<rparr>"
  by (simp add: invoicedTransaction_def completedTransaction_def activeTransaction_def truthy_def
      storeWith_def emptyStore_def stationS1_def noIntegrations_def allowAll_def
      delete_defs missingBlockedOrInvoiced_def handleDeleteTransactions_def)

lemma connectorBinding_cong:
  "chargingStations s = chargingStations st \<Longrightarrow> connectorBinding s = connectorBinding st"
  by (simp add: connectorBinding_def getChargingStation_def fun_eq_iff)

section \<open>Release of the connector of a deleted active transaction\<close>

text \<open>
  Claim C5, as amended: let a transaction of the store be active (no \<^verbatim>\<open>stop\<close>), be read
  with its station snapshot, and be the current occupant of its station's connector, that
  is the station store holds its id as the \<^verbatim>\<open>currentTransactionID\<close> of the connector
  \<^verbatim>\<open>connectorId\<close> of station \<^verbatim>\<open>chargeBoxID\<close>. If \<^verbatim>\<open>deleteTransactions\<close> deletes it (the store no
  longer holds it after the batch), then the station store holds that connector with no
  current transaction: the binding no longer references the deleted id and the updated
  station has been saved.
\<close>

theorem deleteTransactions_releases_connector:
  assumes tx: "transactions st tid = Some d" and active: "stop d = None"
    and supplied: "snapshotSupplied st tid"
    and occupant: "connectorBinding st (chargeBoxID d) (transaction_connectorId d) = Some (Some tid)"
    and deleted: "transactions (snd (deleteTransactions integ ids st)) tid = None"
  shows "connectorBinding (snd (deleteTransactions integ ids st))
           (chargeBoxID d) (transaction_connectorId d) = Some None"
proof -
  obtain td ie st1 where loop: "deleteLoop integ ids ([], 0, st) = (td, ie, st1)"
    by (metis prod_cases3)
  note u = deleteTransactions_unfold[OF loop]
  have tr: "transactions st1 = transactions st" by (rule deleteLoop_transactions[OF loop])
  have marked: "tid \<in> set td"
  proof (rule ccontr)
    assume "tid \<notin> set td"
    then have "transactions (snd (deleteTransactions integ ids st)) tid = Some d"
      using u(4) storeDeleteTransactions_keeps[of tid td st1] tr tx by simp
    with deleted show False by simp
  qed
  have "connectorBinding st1 (chargeBoxID d) (transaction_connectorId d) = Some None"
    by (rule deleteLoop_releases[OF loop tx active supplied _ _ marked]) (simp_all add: occupant)
  then show ?thesis using connectorBinding_cong[OF u(5)] by simp
qed

text \<open>
  When the read of the transaction comes without the station snapshot, line 795 marks the
  transaction for deletion and leaves the station alone: transaction 502 is deleted and
  connector 1 of station S1 still references it.
\<close>

theorem deleteTransactions_without_snapshot_keeps_binding:
  "transactions sampleStoreWithoutSnapshots 502 = Some (activeTransaction 502) \<and>
   stop (activeTransaction 502) = None \<and>
   connectorBinding sampleStoreWithoutSnapshots ''S1'' 1 = Some (Some 502) \<and>
   fst (deleteTransactions bothIntegrations [502] sampleStoreWithoutSnapshots)
     = \<lparr>inSuccess = 1, inError = 0\<rparr> \<and>
   transactions (snd (deleteTransactions bothIntegrations [502] sampleStoreWithoutSnapshots)) 502 = None \<and>
   connectorBinding (snd (deleteTransactions bothIntegrations [502] sampleStoreWithoutSnapshots)) ''S1'' 1
     = Some (Some 502)"
  by (simp add: sampleStoreWithoutSnapshots_def sample_defs delete_defs connectorBinding_def)

text \<open>
  The scenario of the specification: transaction 502, active, bound to connector 1 of
  station S1; deleting the batch 502 frees the connector and reports one success.
\<close>

theorem deleteTransactions_releases_connector_witness:
  "transactions sampleStore 502 = Some (activeTransaction 502) \<and>
   stop (activeTransaction 502) = None \<and> snapshotSupplied sampleStore 502 \<and>
   connectorBinding sampleStore (chargeBoxID (activeTransaction 502))
     (transaction_connectorId (activeTransaction 502)) = Some (Some 502) \<and>
   transactions (snd (deleteTransactions bothIntegrations [502] sampleStore)) 502 = None \<and>
   connectorBinding (snd (deleteTransactions bothIntegrations [502] sampleStore)) ''S1'' 1 = Some None \<and>
   fst (deleteTransactions bothIntegrations [502] sampleStore) = \<lparr>inSuccess = 1, inError = 0\<rparr>"
proof -
  have h1: "transactions sampleStore 502 = Some (activeTransaction 502)"
    by (simp add: sampleStore_def emptyStore_def)
  have h2: "stop (activeTransaction 502) = None" by (simp add: activeTransaction_def)
  have hs: "snapshotSupplied sampleStore 502" by (simp add: sampleStore_def emptyStore_def)
  have h3: "connectorBinding sampleStore (chargeBoxID (activeTransaction 502))
              (transaction_connectorId (activeTransaction 502)) = Some (Some 502)"
    by (simp add: connectorBinding_def getChargingStation_def getConnectorFromID_def
        sampleStore_def emptyStore_def activeTransaction_def stationS1_def)
  have h4: "transactions (snd (deleteTransactions bothIntegrations [502] sampleStore)) 502 = None"
    by (simp add: sample_defs delete_defs)
  have r: "fst (deleteTransactions bothIntegrations [502] sampleStore) = \<lparr>inSuccess = 1, inError = 0\<rparr>"
    by (simp add: sample_defs delete_defs)
  have ids: "chargeBoxID (activeTransaction 502) = ''S1''"
    "transaction_connectorId (activeTransaction 502) = 1"
    by (simp_all add: activeTransaction_def)
  show ?thesis
    using deleteTransactions_releases_connector[OF h1 h2 hs h3 h4] h1 h2 hs h3 h4 r ids by simp
qed

section \<open>Properties of the refund loop\<close>

lemma refundLoop_preserves:
  "refundLoop auth u ids acc st = (r, st') \<Longrightarrow>
   transactions st' = transactions st \<and> chargingStations st' = chargingStations st \<and>
   users st' = users st \<and> refundCalls st' = refundCalls st \<and> ocpiCalls st' = ocpiCalls st"
proof (induction ids arbitrary: acc st)
  case Nil
  then show ?case by simp
next
  case (Cons a ids)
  show ?case
  proof (cases "getTransaction st a")
    case None
    then show ?thesis using Cons.prems by simp
  next
    case (Some t)
    show ?thesis
    proof (cases "alreadyRefunded t")
      case True
      then show ?thesis using Cons.prems Some Cons.IH[of acc "logEntry ERROR ''handleRefundTransactions''
                 (TransactionAlreadyRefunded (transaction_id t)) (user t) st"]
        by (simp add: logEntry_def)
    next
      case False
      then show ?thesis using Cons.prems Some Cons.IH[of "acc @ [t]" st]
        by (simp split: if_splits)
    qed
  qed
qed

lemma getTransaction_id: "getTransaction st a = Some t \<Longrightarrow> transaction_id t = a"
  by (auto simp: getTransaction_def)

lemma getTransaction_refundData:
  "getTransaction st a = Some t \<Longrightarrow> \<exists>d. transactions st a = Some d \<and> refundData t = refundData d"
  by (auto simp: getTransaction_def)

lemma refundLoop_excludes:
  assumes "transactions st tid = Some d" and "alreadyRefunded d"
  shows "refundLoop auth u ids acc st = (Inr txs, st') \<Longrightarrow> tid \<notin> transaction_id ` set acc \<Longrightarrow>
         tid \<notin> transaction_id ` set txs"
  using assms(1)
proof (induction ids arbitrary: acc st)
  case Nil
  then show ?case by simp
next
  case (Cons a ids)
  show ?case
  proof (cases "getTransaction st a")
    case None
    then show ?thesis using Cons.prems by simp
  next
    case (Some t)
    show ?thesis
    proof (cases "alreadyRefunded t")
      case True
      let ?st = "logEntry ERROR ''handleRefundTransactions''
                 (TransactionAlreadyRefunded (transaction_id t)) (user t) st"
      have "refundLoop auth u ids acc ?st = (Inr txs, st')"
        using Cons.prems(1) Some True by simp
      moreover have "transactions ?st tid = Some d" using Cons.prems(3) by simp
      ultimately show ?thesis using Cons.IH Cons.prems(2) by blast
    next
      case False
      have "a \<noteq> tid"
      proof
        assume "a = tid"
        then have "refundData t = refundData d"
          using getTransaction_refundData[OF Some] Cons.prems(3) by auto
        then show False using False assms(2) by (simp add: alreadyRefunded_def)
      qed
      then have "tid \<notin> transaction_id ` set (acc @ [t])"
        using Cons.prems(2) getTransaction_id[OF Some] by auto
      moreover have "refundLoop auth u ids (acc @ [t]) st = (Inr txs, st')"
        using Cons.prems(1) Some False by (simp split: if_splits)
      ultimately show ?thesis using Cons.IH Cons.prems(3) by blast
    qed
  qed
qed

lemma handleRefundTransactions_calls:
  assumes "transactions st tid = Some d" and "alreadyRefunded d"
    and "(uid, txs) \<in> set (refundCalls (snd (handleRefundTransactions auth integ u (Some ids) st)))"
  shows "(uid, txs) \<in> set (refundCalls st) \<or> tid \<notin> transaction_id ` set txs"
proof -
  obtain r st1 where loop: "refundLoop auth u ids [] st = (r, st1)" by (metis surj_pair)
  have calls: "refundCalls st1 = refundCalls st" using refundLoop_preserves[OF loop] by simp
  show ?thesis
  proof (cases r)
    case (Inl e)
    then show ?thesis using assms(3) loop calls by (simp add: handleRefundTransactions_def)
  next
    case (Inr toRefund)
    have ex: "tid \<notin> transaction_id ` set toRefund"
      using refundLoop_excludes[OF assms(1,2), of auth u ids "[]" toRefund st1] loop Inr by simp
    show ?thesis using assms(3) loop Inr calls ex
      by (auto simp: handleRefundTransactions_def Let_def split: option.splits sum.splits)
  qed
qed

lemma deleteStep_logs_mono:
  "deleteStep integ a (td, ie, s) = (td1, ie1, s1) \<Longrightarrow> set (logs s) \<subseteq> set (logs s1)"
  by (auto simp: deleteStep_def releaseConnector_def saveChargingStation_def logEntry_def
      split: option.splits if_splits)

lemma deleteLoop_logs_mono:
  "deleteLoop integ ids (td, ie, s) = (td', ie', s') \<Longrightarrow> set (logs s) \<subseteq> set (logs s')"
proof (induction ids arbitrary: td ie s)
  case Nil
  then show ?case by simp
next
  case (Cons a ids)
  obtain td1 ie1 s1 where step: "deleteStep integ a (td, ie, s) = (td1, ie1, s1)"
    by (metis prod_cases3)
  have "deleteLoop integ ids (td1, ie1, s1) = (td', ie', s')"
    using Cons.prems step by simp
  from Cons.IH[OF this] deleteStep_logs_mono[OF step] show ?case by blast
qed

lemma deleteLoop_logs_entry:
  assumes always: "\<And>s td ie. transactions s = transactions st \<Longrightarrow>
                     deleteStep integ tid (td, ie, s) = (td, Suc ie, logEntry lvl m msg a s)"
  shows "deleteLoop integ ids (td, ie, s) = (td', ie', s') \<Longrightarrow> transactions s = transactions st \<Longrightarrow>
         tid \<in> set ids \<Longrightarrow>
         \<lparr>log_level = lvl, log_method = m, log_message = msg, actionOnUser = a\<rparr> \<in> set (logs s')"
proof (induction ids arbitrary: td ie s)
  case Nil
  then show ?case by simp
next
  case (Cons x ids)
  obtain td1 ie1 s1 where step: "deleteStep integ x (td, ie, s) = (td1, ie1, s1)"
    by (metis prod_cases3)
  have loop: "deleteLoop integ ids (td1, ie1, s1) = (td', ie', s')"
    using Cons.prems(1) step by simp
  have tr1: "transactions s1 = transactions st"
    using deleteStep_transactions[OF step] Cons.prems(2) by simp
  show ?case
  proof (cases "x = tid")
    case True
    then have "s1 = logEntry lvl m msg a s"
      using always[OF Cons.prems(2), of td ie] step by simp
    then have "\<lparr>log_level = lvl, log_method = m, log_message = msg, actionOnUser = a\<rparr> \<in> set (logs s1)"
      by (simp add: logEntry_def)
    then show ?thesis using deleteLoop_logs_mono[OF loop] by blast
  next
    case False
    then have "tid \<in> set ids" using Cons.prems(3) by simp
    from Cons.IH[OF loop tr1 this] show ?thesis .
  qed
qed

lemma deleteTransactions_logs:
  assumes "deleteLoop integ ids ([], 0, st) = (td, ie, st1)"
  shows "set (logs st1) \<subseteq> set (logs (snd (deleteTransactions integ ids st)))"
  using assms
  by (auto simp: deleteTransactions_def storeDeleteTransactions_def logEntry_def split: prod.splits)

lemma deleteLoop_total:
  "deleteLoop integ ids (td, ie, s) = (td', ie', s') \<Longrightarrow>
   length td' + ie' = length td + ie + length ids"
proof (induction ids arbitrary: td ie s)
  case Nil
  then show ?case by simp
next
  case (Cons a ids)
  obtain td1 ie1 s1 where step: "deleteStep integ a (td, ie, s) = (td1, ie1, s1)"
    by (metis prod_cases3)
  have loop: "deleteLoop integ ids (td1, ie1, s1) = (td', ie', s')"
    using Cons.prems step by simp
  have "length td1 + ie1 = length td + ie + 1"
    using step deleteStep_rejected[of integ s a td ie] deleteStep_accepted[of integ s a td ie]
    by (cases "individuallyIneligible integ s a") auto
  with Cons.IH[OF loop] show ?case by simp
qed

lemma storeDeleteTransactions_le: "fst (storeDeleteTransactions ids st) \<le> length ids"
proof -
  have "length (filter (\<lambda>i. transactions st i \<noteq> None) (remdups ids)) \<le> length (remdups ids)"
    by (rule length_filter_le)
  also have "\<dots> \<le> length ids" by (rule length_remdups_leq)
  finally show ?thesis by (simp add: storeDeleteTransactions_def)
qed

lemma deleteStep_refunded:
  assumes tx: "transactions s tid = Some d" and refunded: "alreadyRefunded d"
    and impl: "refundImpl integ = Some rc" and contract: "refusesRefunded rc"
  shows "deleteStep integ tid (td, ie, s) =
           (td, Suc ie,
            logEntry ERROR ''handleDeleteTransactions'' (TransactionRefundedCannotBeDeleted tid) None s)"
proof -
  let ?t = "d\<lparr>transaction_id := tid, chargeBox := attachedSnapshot s tid d\<rparr>"
  have get: "getTransaction s tid = Some ?t" using tx by (simp add: getTransaction_def)
  have "alreadyRefunded ?t" using refunded by (simp add: alreadyRefunded_def)
  then have "\<not> canBeDeleted rc ?t" using contract by (simp add: refusesRefunded_def)
  then have "refundBlocksDeletion integ ?t" using impl by (simp add: refundBlocksDeletion_def)
  then show ?thesis using get by (simp add: deleteStep_def)
qed

lemma refunded_ineligible:
  assumes "transactions s tid = Some d" and "alreadyRefunded d"
    and "refundImpl integ = Some rc" and "refusesRefunded rc"
  shows "individuallyIneligible integ s tid"
proof (rule ccontr)
  assume "\<not> individuallyIneligible integ s tid"
  from deleteStep_accepted[OF this, of "[]" 0] deleteStep_refunded[OF assms, of "[]" 0]
  show False by auto
qed

section \<open>Transactions that are already refunded\<close>

text \<open>
  Claim C3, as amended: let a transaction of the store have a refund with a non-empty
  \<^verbatim>\<open>refundId\<close> and a status other than \<^verbatim>\<open>CANCELLED\<close>. Refund submission skips it: the
  iteration logs, throws nothing and goes on with the rest of the batch and the same list of
  transactions to refund, and no call of the refund integration made by
  \<^verbatim>\<open>handleRefundTransactions\<close> contains it. Deletion skips it whenever a refund integration
  is configured for the tenant, its \<^verbatim>\<open>canBeDeleted\<close> refusing refunded transactions: the
  iteration writes the log entry "has been refunded and cannot be deleted", counts one
  error and marks nothing; over a whole batch the id is not handed to the bulk delete, the
  store still holds the transaction, each occurrence of the id is counted in \<^verbatim>\<open>inError\<close>
  and none in \<^verbatim>\<open>inSuccess\<close>, and the log of the batch holds the entry.
\<close>

theorem refunded_transaction_is_skipped:
  assumes tx: "transactions st tid = Some d" and refunded: "alreadyRefunded d"
  shows "refundLoop auth u (tid # ids) acc st =
           refundLoop auth u ids acc
             (logEntry ERROR ''handleRefundTransactions'' (TransactionAlreadyRefunded tid) (user d) st) \<and>
         (\<forall>uid txs. (uid, txs) \<in> set (refundCalls (snd (handleRefundTransactions auth integ u (Some batch) st)))
            \<longrightarrow> (uid, txs) \<in> set (refundCalls st) \<or> tid \<notin> transaction_id ` set txs) \<and>
         (\<forall>rc. refundImpl integ = Some rc \<longrightarrow> refusesRefunded rc \<longrightarrow>
            deleteStep integ tid (toDelete, inErr, st) =
              (toDelete, Suc inErr,
               logEntry ERROR ''handleDeleteTransactions''
                 (TransactionRefundedCannotBeDeleted tid) None st) \<and>
            tid \<notin> set (transactionsIDsToDelete integ batch st) \<and>
            transactions (snd (deleteTransactions integ batch st)) tid = Some d \<and>
            count_list batch tid \<le> inError (fst (deleteTransactions integ batch st)) \<and>
            inSuccess (fst (deleteTransactions integ batch st)) + count_list batch tid \<le> length batch \<and>
            (tid \<in> set batch \<longrightarrow>
               \<lparr>log_level = ERROR, log_method = ''handleDeleteTransactions'',
                log_message = TransactionRefundedCannotBeDeleted tid, actionOnUser = None\<rparr>
                 \<in> set (logs (snd (deleteTransactions integ batch st)))))"
proof -
  have a: "refundLoop auth u (tid # ids) acc st =
           refundLoop auth u ids acc
             (logEntry ERROR ''handleRefundTransactions'' (TransactionAlreadyRefunded tid) (user d) st)"
    using tx refunded by (simp add: getTransaction_def alreadyRefunded_def)
  have b: "\<forall>uid txs. (uid, txs) \<in> set (refundCalls (snd (handleRefundTransactions auth integ u (Some batch) st)))
            \<longrightarrow> (uid, txs) \<in> set (refundCalls st) \<or> tid \<notin> transaction_id ` set txs"
    using handleRefundTransactions_calls[OF tx refunded] by blast
  have c: "deleteStep integ tid (toDelete, inErr, st) =
              (toDelete, Suc inErr,
               logEntry ERROR ''handleDeleteTransactions''
                 (TransactionRefundedCannotBeDeleted tid) None st) \<and>
            tid \<notin> set (transactionsIDsToDelete integ batch st) \<and>
            transactions (snd (deleteTransactions integ batch st)) tid = Some d \<and>
            count_list batch tid \<le> inError (fst (deleteTransactions integ batch st)) \<and>
            inSuccess (fst (deleteTransactions integ batch st)) + count_list batch tid \<le> length batch \<and>
            (tid \<in> set batch \<longrightarrow>
               \<lparr>log_level = ERROR, log_method = ''handleDeleteTransactions'',
                log_message = TransactionRefundedCannotBeDeleted tid, actionOnUser = None\<rparr>
                 \<in> set (logs (snd (deleteTransactions integ batch st))))"
    if impl: "refundImpl integ = Some rc" and contract: "refusesRefunded rc" for rc
  proof -
    have step: "\<And>s td ie. transactions s = transactions st \<Longrightarrow>
                  deleteStep integ tid (td, ie, s) =
                    (td, Suc ie,
                     logEntry ERROR ''handleDeleteTransactions''
                       (TransactionRefundedCannotBeDeleted tid) None s)"
      using deleteStep_refunded[OF _ refunded impl contract] tx by simp
    have inel: "\<And>s. transactions s = transactions st \<Longrightarrow> individuallyIneligible integ s tid"
      using refunded_ineligible[OF _ refunded impl contract] tx by simp
    have rej: "tid \<notin> set (transactionsIDsToDelete integ batch st) \<and>
               transactions (snd (deleteTransactions integ batch st)) tid = transactions st tid \<and>
               count_list batch tid \<le> inError (fst (deleteTransactions integ batch st))"
      by (rule deleteTransactions_rejected) (rule inel)
    obtain td ie st1 where loop: "deleteLoop integ batch ([], 0, st) = (td, ie, st1)"
      by (metis prod_cases3)
    note un = deleteTransactions_unfold[OF loop]
    have total: "length td + ie = length batch"
      using deleteLoop_total[OF loop] by simp
    have "inSuccess (fst (deleteTransactions integ batch st)) \<le> length td"
      using un(3) storeDeleteTransactions_le[of td st1] by simp
    then have succ: "inSuccess (fst (deleteTransactions integ batch st)) + count_list batch tid
                       \<le> length batch"
      using total rej un(2) by simp
    have logged: "\<lparr>log_level = ERROR, log_method = ''handleDeleteTransactions'',
                log_message = TransactionRefundedCannotBeDeleted tid, actionOnUser = None\<rparr>
                 \<in> set (logs (snd (deleteTransactions integ batch st)))"
      if "tid \<in> set batch"
      using deleteLoop_logs_entry[OF step loop _ that] deleteTransactions_logs[OF loop] by auto
    show ?thesis using step[of st toDelete inErr] rej tx succ logged by simp
  qed
  show ?thesis using a b c by blast
qed

text \<open>
  The refunded transaction 501 of the sample store, with both integrations: the refund of
  the batch 501, 700 hands only 700 to the integration, and the deletion of the batch 501
  reports no success and one error, as in the scenario of the specification, and logs the
  refusal.
\<close>

theorem refunded_transaction_is_skipped_witness:
  "transactions sampleStore 501 = Some (refundedTransaction 501) \<and>
   alreadyRefunded (refundedTransaction 501) \<and>
   refundImpl bothIntegrations = Some refundConnector \<and> refusesRefunded refundConnector \<and>
   refundLoop allowAll admin [501, 700] [] sampleStore =
     refundLoop allowAll admin [700] []
       (logEntry ERROR ''handleRefundTransactions'' (TransactionAlreadyRefunded 501) None sampleStore) \<and>
   map (map transaction_id \<circ> snd)
     (refundCalls (snd (handleRefundTransactions allowAll bothIntegrations admin (Some [501, 700]) sampleStore)))
     = [[700]] \<and>
   501 \<notin> set (transactionsIDsToDelete bothIntegrations [501] sampleStore) \<and>
   transactions (snd (deleteTransactions bothIntegrations [501] sampleStore)) 501
     = Some (refundedTransaction 501) \<and>
   fst (deleteTransactions bothIntegrations [501] sampleStore) = \<lparr>inSuccess = 0, inError = 1\<rparr> \<and>
   logs (snd (deleteTransactions bothIntegrations [501] sampleStore)) =
     [\<lparr>log_level = ERROR, log_method = ''handleDeleteTransactions'',
       log_message = TransactionRefundedCannotBeDeleted 501, actionOnUser = None\<rparr>,
      \<lparr>log_level = ERROR, log_method = ''synchronizeCarCatalogs'',
       log_message = ActionsResponseSummary 0 1, actionOnUser = None\<rparr>]"
proof -
  have h1: "transactions sampleStore 501 = Some (refundedTransaction 501)"
    by (simp add: sampleStore_def emptyStore_def)
  have h2: "alreadyRefunded (refundedTransaction 501)"
    by (simp add: alreadyRefunded_def refundedTransaction_def truthy_def)
  have h3: "refundImpl bothIntegrations = Some refundConnector"
    by (simp add: bothIntegrations_def)
  have h4: "refusesRefunded refundConnector"
    by (simp add: refusesRefunded_def refundConnector_def)
  have u: "user (refundedTransaction 501) = None"
    by (simp add: refundedTransaction_def completedTransaction_def activeTransaction_def)
  have calls: "map (map transaction_id \<circ> snd)
     (refundCalls (snd (handleRefundTransactions allowAll bothIntegrations admin (Some [501, 700]) sampleStore)))
     = [[700]]"
    by (simp add: sample_defs refund_defs allowAll_def admin_def)
  have r: "fst (deleteTransactions bothIntegrations [501] sampleStore) = \<lparr>inSuccess = 0, inError = 1\<rparr>"
    by (simp add: sample_defs delete_defs)
  have l: "logs (snd (deleteTransactions bothIntegrations [501] sampleStore)) =
     [\<lparr>log_level = ERROR, log_method = ''handleDeleteTransactions'',
       log_message = TransactionRefundedCannotBeDeleted 501, actionOnUser = None\<rparr>,
      \<lparr>log_level = ERROR, log_method = ''synchronizeCarCatalogs'',
       log_message = ActionsResponseSummary 0 1, actionOnUser = None\<rparr>]"
    by (simp add: sample_defs delete_defs)
  note t = refunded_transaction_is_skipped[OF h1 h2, where auth=allowAll and u=admin
      and ids="[700]" and acc="[]" and integ=bothIntegrations and batch="[501]"
      and toDelete="[]" and inErr=0]
  note del = t[THEN conjunct2, THEN conjunct2, rule_format, OF h3 h4]
  show ?thesis
    using t[THEN conjunct1] del h1 h2 h3 h4 u calls r l by simp
qed

text \<open>
  Without a refund integration the guard \<^verbatim>\<open>refundConnector &&\<close> of line 772 lets the refunded
  transaction 501 through: it is deleted and counted in \<^verbatim>\<open>inSuccess\<close>.
\<close>

theorem deleteTransactions_deletes_refunded_without_refund_integration:
  "alreadyRefunded (refundedTransaction 501) \<and>
   fst (deleteTransactions noIntegrations [501] sampleStore) = \<lparr>inSuccess = 1, inError = 0\<rparr> \<and>
   transactions (snd (deleteTransactions noIntegrations [501] sampleStore)) 501 = None"
  by (simp add: sample_defs delete_defs noIntegrations_def)

lemma refundLoop_all_refunded:
  "\<forall>tid\<in>set ids. \<exists>d. transactions st tid = Some d \<and> alreadyRefunded d \<Longrightarrow>
   \<exists>st'. refundLoop auth u ids acc st = (Inr acc, st')"
proof (induction ids arbitrary: st)
  case Nil
  then show ?case by simp
next
  case (Cons a ids)
  obtain d where d: "transactions st a = Some d" "alreadyRefunded d"
    using Cons.prems by auto
  let ?st = "logEntry ERROR ''handleRefundTransactions'' (TransactionAlreadyRefunded a) (user d) st"
  have step: "refundLoop auth u (a # ids) acc st = refundLoop auth u ids acc ?st"
    using d by (simp add: getTransaction_def alreadyRefunded_def)
  have "\<forall>tid\<in>set ids. \<exists>d. transactions ?st tid = Some d \<and> alreadyRefunded d"
    using Cons.prems by simp
  from Cons.IH[OF this] step show ?case by simp
qed

lemma refundLoop_auth_independent:
  "\<forall>tid\<in>set ids. \<exists>d. transactions st tid = Some d \<and> alreadyRefunded d \<Longrightarrow>
   refundLoop auth' u ids acc st = refundLoop auth u ids acc st"
proof (induction ids arbitrary: st)
  case Nil
  then show ?case by simp
next
  case (Cons a ids)
  obtain d where d: "transactions st a = Some d" "alreadyRefunded d"
    using Cons.prems by auto
  let ?st = "logEntry ERROR ''handleRefundTransactions'' (TransactionAlreadyRefunded a) (user d) st"
  have step: "\<And>x. refundLoop x u (a # ids) acc st = refundLoop x u ids acc ?st"
    using d by (simp add: getTransaction_def alreadyRefunded_def)
  have "\<forall>tid\<in>set ids. \<exists>d. transactions ?st tid = Some d \<and> alreadyRefunded d"
    using Cons.prems by simp
  from Cons.IH[OF this] step show ?case by simp
qed

section \<open>Refund submission of a batch of refunded transactions\<close>

text \<open>
  Claim C9, as amended: the capability check is evaluated only for transactions that exist
  and are not already refunded. So for every batch in which every requested id exists and
  is already refunded, the handler raises no authorization error and answers the same
  whatever the capability check would say; and when the acting user exists, a refund
  integration is configured and it reports no refunded transaction for an empty list, the
  integration is invoked once, with an empty list, and the answer is a success with
  \<^verbatim>\<open>inSuccess\<close> \<open>= 0\<close> and no \<^verbatim>\<open>inError\<close>.
\<close>

theorem refund_of_refunded_batch:
  assumes all: "\<forall>tid\<in>set ids. \<exists>d. transactions st tid = Some d \<and> alreadyRefunded d"
  shows "(\<forall>a e m. fst (handleRefundTransactions auth integ u (Some ids) st) \<noteq> Inl (AppAuthError a e m)) \<and>
         handleRefundTransactions auth integ u (Some ids) st =
           handleRefundTransactions auth' integ u (Some ids) st \<and>
         (\<forall>usr rc. getUser st (token_id u) = Some usr \<longrightarrow> refundImpl integ = Some rc \<longrightarrow>
            refund rc (user_id usr) [] = Inr [] \<longrightarrow>
            fst (handleRefundTransactions auth integ u (Some ids) st) =
              Inr \<lparr>refund_status = ''Success'', refund_inSuccess = 0, refund_inError = None\<rparr> \<and>
            refundCalls (snd (handleRefundTransactions auth integ u (Some ids) st)) =
              refundCalls st @ [(user_id usr, [])])"
proof -
  obtain st1 where loop: "refundLoop auth u ids [] st = (Inr [], st1)"
    using refundLoop_all_refunded[OF all] by blast
  note p = refundLoop_preserves[OF loop]
  have usr: "getUser st1 = getUser st" using p by (simp add: getUser_def fun_eq_iff)
  have indep: "refundLoop auth' u ids [] st = refundLoop auth u ids [] st"
    by (rule refundLoop_auth_independent[OF all])
  have a: "\<forall>a e m. fst (handleRefundTransactions auth integ u (Some ids) st) \<noteq> Inl (AppAuthError a e m)"
    using loop by (auto simp: handleRefundTransactions_def Let_def split: option.splits sum.splits)
  have b: "handleRefundTransactions auth integ u (Some ids) st =
           handleRefundTransactions auth' integ u (Some ids) st"
    using indep by (simp add: handleRefundTransactions_def)
  have c: "\<forall>usr rc. getUser st (token_id u) = Some usr \<longrightarrow> refundImpl integ = Some rc \<longrightarrow>
            refund rc (user_id usr) [] = Inr [] \<longrightarrow>
            fst (handleRefundTransactions auth integ u (Some ids) st) =
              Inr \<lparr>refund_status = ''Success'', refund_inSuccess = 0, refund_inError = None\<rparr> \<and>
            refundCalls (snd (handleRefundTransactions auth integ u (Some ids) st)) =
              refundCalls st @ [(user_id usr, [])]"
    using loop usr p by (simp add: handleRefundTransactions_def)
  show ?thesis using a b c by blast
qed

text \<open>
  The batch 501, 501 over the sample store: even a caller without any capability gets the
  success answer, and the integration has been called once with an empty list.
\<close>

theorem refund_of_refunded_batch_witness:
  "transactions sampleStore 501 = Some (refundedTransaction 501) \<and>
   alreadyRefunded (refundedTransaction 501) \<and>
   getUser sampleStore (token_id admin) = Some \<lparr>user_id = ''U1'', user_issuer = True\<rparr> \<and>
   refundImpl bothIntegrations = Some refundConnector \<and>
   refund refundConnector ''U1'' [] = Inr [] \<and>
   fst (handleRefundTransactions denyAll bothIntegrations admin (Some [501, 501]) sampleStore) =
     Inr \<lparr>refund_status = ''Success'', refund_inSuccess = 0, refund_inError = None\<rparr> \<and>
   refundCalls (snd (handleRefundTransactions denyAll bothIntegrations admin (Some [501, 501]) sampleStore))
     = [(''U1'', [])]"
proof -
  have h0: "transactions sampleStore 501 = Some (refundedTransaction 501)"
    by (simp add: sampleStore_def emptyStore_def)
  have h2: "alreadyRefunded (refundedTransaction 501)"
    by (simp add: alreadyRefunded_def refundedTransaction_def truthy_def)
  have h1: "\<forall>tid\<in>set [501, 501]. \<exists>d. transactions sampleStore tid = Some d \<and> alreadyRefunded d"
    using h0 h2 by simp
  have h3: "getUser sampleStore (token_id admin) = Some \<lparr>user_id = ''U1'', user_issuer = True\<rparr>"
    by (simp add: getUser_def sampleStore_def emptyStore_def admin_def)
  have h4: "refundImpl bothIntegrations = Some refundConnector" by (simp add: bothIntegrations_def)
  have h5: "refund refundConnector ''U1'' [] = Inr []" by (simp add: refundConnector_def)
  have h5': "refund refundConnector (user_id \<lparr>user_id = ''U1'', user_issuer = True\<rparr>) [] = Inr []"
    using h5 by simp
  have c: "refundCalls sampleStore = []" by (simp add: sampleStore_def emptyStore_def)
  note t = refund_of_refunded_batch[OF h1, of denyAll bothIntegrations admin allowAll]
  note r = t[THEN conjunct2, THEN conjunct2, rule_format, OF h3 h4 h5']
  show ?thesis using r h0 h2 h3 h4 h5 c by simp
qed

text \<open>
  For a tenant without refund integration the same kind of batch ends with the error
  \<^verbatim>\<open>No Refund Implementation Found\<close>: no success answer, and no integration to invoke.
\<close>

theorem refund_of_refunded_batch_without_integration:
  "transactions sampleStore 501 = Some (refundedTransaction 501) \<and>
   alreadyRefunded (refundedTransaction 501) \<and>
   handleRefundTransactions allowAll noIntegrations admin (Some [501]) sampleStore =
     (Inl (AppError GENERAL_ERROR NoRefundImplementationFound),
      logEntry ERROR ''handleRefundTransactions'' (TransactionAlreadyRefunded 501) None sampleStore)"
  by (simp add: sample_defs refund_defs noIntegrations_def admin_def)

lemma cdr_second_push:
  assumes tx: "getTransaction st tid = Some t" and cs: "getChargingStation st (chargeBoxID t) = Some c"
    and iss: "issuer t" and od: "ocpiData t = Some od" and pushed: "cdrAlreadyPushed od"
  shows "snd (handlePushTransactionCdr auth proc u (Some tid) st) = st \<and>
         (canUpdateTransaction auth u \<longrightarrow>
            handlePushTransactionCdr auth proc u (Some tid) st =
              (Inl (AppError TRANSACTION_CDR_ALREADY_PUSHED (CdrAlreadyPushed (transaction_id t))), st))"
  using assms by (simp add: handlePushTransactionCdr_def)

section \<open>Pushing a CDR twice\<close>

text \<open>
  Claim C6: if a first push of the CDR of a transaction succeeds, the roaming collaborator
  having set a CDR id, then the handler has persisted the transaction with that id, and a
  second push of the same transaction, by the same or any other caller with the capability,
  fails with the conflict \<^verbatim>\<open>TRANSACTION_CDR_ALREADY_PUSHED\<close>; a second push by whatever
  caller leaves the state as it is: the roaming collaborator, invoked once by the first
  push, is not invoked again, so the CDR is not sent twice.
\<close>

theorem cdr_push_twice_is_rejected:
  assumes first: "handlePushTransactionCdr auth proc u (Some tid) st = (Inr (), st1)"
    and sets_id: "collaboratorSetsCdrId proc st tid"
  shows "persistedCdrPushed st1 tid \<and>
         handlePushTransactionCdr auth proc u (Some tid) st1 =
           (Inl (AppError TRANSACTION_CDR_ALREADY_PUSHED (CdrAlreadyPushed tid)), st1) \<and>
         (canUpdateTransaction auth2 u2 \<longrightarrow>
            handlePushTransactionCdr auth2 proc2 u2 (Some tid) st1 =
              (Inl (AppError TRANSACTION_CDR_ALREADY_PUSHED (CdrAlreadyPushed tid)), st1)) \<and>
         snd (handlePushTransactionCdr auth2 proc2 u2 (Some tid) st1) = st1 \<and>
         ocpiCalls st1 = ocpiCalls st @ [tid]"
proof -
  from first have auth: "canUpdateTransaction auth u"
    by (auto simp: handlePushTransactionCdr_def split: if_splits)
  from first obtain t where t: "getTransaction st tid = Some t"
    by (auto simp: handlePushTransactionCdr_def split: if_splits option.splits)
  from first auth t obtain c where c: "getChargingStation st (chargeBoxID t) = Some c"
    by (auto simp: handlePushTransactionCdr_def split: if_splits option.splits)
  from first auth t c have iss: "issuer t"
    by (auto simp: handlePushTransactionCdr_def split: if_splits)
  from first auth t c iss obtain od where od: "ocpiData t = Some od"
    by (auto simp: handlePushTransactionCdr_def split: if_splits option.splits)
  from first auth t c iss od have np: "\<not> cdrAlreadyPushed od"
    by (auto simp: handlePushTransactionCdr_def split: if_splits)
  from first auth t c iss od np obtain od' where od': "proc t c = Inr od'"
    by (auto simp: handlePushTransactionCdr_def Let_def split: sum.splits)
  have pushed: "cdrAlreadyPushed od'"
    using sets_id t c od' by (simp add: collaboratorSetsCdrId_def)
  have tid: "transaction_id t = tid" using t by (auto simp: getTransaction_def)
  let ?t' = "t\<lparr>ocpiData := Some od'\<rparr>"
  have st1: "st1 = logEntry INFO ''handlePushTransactionCdr'' (CdrPushedSuccessfully tid) (user t)
                     (saveTransaction ?t' (st\<lparr>ocpiCalls := ocpiCalls st @ [tid]\<rparr>))"
    using first auth t c iss od np od' tid by (simp add: handlePushTransactionCdr_def Let_def)
  have stations: "chargingStations st1 = chargingStations st"
    by (simp add: st1 logEntry_def saveTransaction_def)
  have stored: "transactions st1 tid = Some ?t'"
    by (simp add: st1 logEntry_def saveTransaction_def tid)
  have cs1: "getChargingStation st1 = getChargingStation st"
    using stations by (simp add: getChargingStation_def fun_eq_iff)
  let ?t1 = "?t'\<lparr>transaction_id := tid, chargeBox := attachedSnapshot st1 tid ?t'\<rparr>"
  have get1: "getTransaction st1 tid = Some ?t1"
    using stored by (simp add: getTransaction_def)
  have persisted: "persistedCdrPushed st1 tid"
    using get1 pushed by (simp add: persistedCdrPushed_def)
  have second: "\<And>a p v. snd (handlePushTransactionCdr a p v (Some tid) st1) = st1 \<and>
         (canUpdateTransaction a v \<longrightarrow>
            handlePushTransactionCdr a p v (Some tid) st1 =
              (Inl (AppError TRANSACTION_CDR_ALREADY_PUSHED (CdrAlreadyPushed (transaction_id ?t1))), st1))"
    by (rule cdr_second_push[OF get1, of c od']) (simp_all add: cs1 c iss pushed)
  have calls: "ocpiCalls st1 = ocpiCalls st @ [tid]"
    by (simp add: st1 logEntry_def saveTransaction_def)
  show ?thesis using persisted second[of auth proc u] second[of auth2 proc2 u2] auth calls by simp
qed

text \<open>
  The roaming transaction 800: the first push invokes the collaborator and persists the
  CDR id; the second, by another caller with the capability, is rejected without a further
  invocation.
\<close>

theorem cdr_push_twice_is_rejected_witness:
  "handlePushTransactionCdr allowAll sendCdr admin (Some 800)
     (storeWith 800 (roamingTransaction 800) None)
     = (Inr (), snd (handlePushTransactionCdr allowAll sendCdr admin (Some 800)
                       (storeWith 800 (roamingTransaction 800) None))) \<and>
   collaboratorSetsCdrId sendCdr (storeWith 800 (roamingTransaction 800) None) 800 \<and>
   persistedCdrPushed
     (snd (handlePushTransactionCdr allowAll sendCdr admin (Some 800)
             (storeWith 800 (roamingTransaction 800) None))) 800 \<and>
   canUpdateTransaction allowAll operator \<and>
   fst (handlePushTransactionCdr allowAll sendCdr operator (Some 800)
          (snd (handlePushTransactionCdr allowAll sendCdr admin (Some 800)
                  (storeWith 800 (roamingTransaction 800) None))))
     = Inl (AppError TRANSACTION_CDR_ALREADY_PUSHED (CdrAlreadyPushed 800)) \<and>
   ocpiCalls
     (snd (handlePushTransactionCdr allowAll sendCdr operator (Some 800)
             (snd (handlePushTransactionCdr allowAll sendCdr admin (Some 800)
                     (storeWith 800 (roamingTransaction 800) None)))))
     = [800]"
proof -
  let ?st = "storeWith 800 (roamingTransaction 800) None"
  let ?st1 = "snd (handlePushTransactionCdr allowAll sendCdr admin (Some 800) ?st)"
  have h1: "handlePushTransactionCdr allowAll sendCdr admin (Some 800) ?st = (Inr (), ?st1)"
    by (simp add: cdr_defs)
  have h2: "collaboratorSetsCdrId sendCdr ?st 800"
    by (simp add: collaboratorSetsCdrId_def cdr_defs)
  have h3: "canUpdateTransaction allowAll operator" by (simp add: allowAll_def)
  have c: "ocpiCalls ?st = []" by (simp add: storeWith_def emptyStore_def)
  note t = cdr_push_twice_is_rejected[OF h1 h2, of allowAll operator sendCdr]
  have persisted: "persistedCdrPushed ?st1 800" using t by blast
  have second: "handlePushTransactionCdr allowAll sendCdr operator (Some 800) ?st1 =
                  (Inl (AppError TRANSACTION_CDR_ALREADY_PUSHED (CdrAlreadyPushed 800)), ?st1)"
    using t h3 by blast
  have calls: "ocpiCalls ?st1 = [800]" using t c by simp
  show ?thesis using h1 h2 h3 persisted second calls by simp
qed

section \<open>CSV export of an active transaction\<close>

text \<open>
  Claim C7, as amended: for a transaction without \<^verbatim>\<open>stop\<close>, the row of \<^verbatim>\<open>convertToCSV\<close> has
  empty strings in all seven stop-derived columns (end date, end time, consumption,
  duration, inactivity, price, price unit) and, before them, the id, the station, the
  connector, the hashed user id, the user's full name, the start date and the start time:
  fourteen cells, as many as the header has columns.
\<close>

theorem csv_row_without_stop:
  assumes "stop t = None"
  shows "stopCells env t = [[], [], [], [], [], [], []] \<and>
         length (startCells env t @ stopCells env t) = length csvHeaderColumns \<and>
         csvRow env t =
           numberToString env (of_int (transaction_id t)) @ CSV_SEPARATOR env
           @ chargeBoxID t @ CSV_SEPARATOR env
           @ numberToString env (of_int (transaction_connectorId t)) @ CSV_SEPARATOR env
           @ (case user t of None \<Rightarrow> [] | Some usr \<Rightarrow> hash env (user_id usr)) @ CSV_SEPARATOR env
           @ (case user t of None \<Rightarrow> [] | Some usr \<Rightarrow> buildUserFullName env usr) @ CSV_SEPARATOR env
           @ formatDate env (timestamp t) @ CSV_SEPARATOR env
           @ formatTime env (timestamp t) @ CSV_SEPARATOR env
           @ CSV_SEPARATOR env @ CSV_SEPARATOR env @ CSV_SEPARATOR env
           @ CSV_SEPARATOR env @ CSV_SEPARATOR env @ CSV_SEPARATOR env
           @ [CHR 0x0D, CHR 0x0A]"
  using assms by (simp add: stopCells_def startCells_def csvRow_def csvHeaderColumns_def)

text \<open>The row of the active transaction 502, with a comma as separator.\<close>

theorem csv_row_without_stop_witness:
  "stop (activeTransaction 502) = None \<and>
   stopCells sampleCsv (activeTransaction 502) = [[], [], [], [], [], [], []] \<and>
   csvRow sampleCsv (activeTransaction 502)
     = ''502,S1,1,,,1970-01-01,00:00:00,,,,,,,'' @ [CHR 0x0D, CHR 0x0A]"
proof -
  have h: "stop (activeTransaction 502) = None" by (simp add: activeTransaction_def)
  have n: "showNat 502 = ''502''" "showNat 1 = ''1''" by (simp_all add: showNat.simps)
  show ?thesis
    using csv_row_without_stop[OF h, of sampleCsv] h n
    by (simp add: sampleCsv_def activeTransaction_def)
qed

text \<open>
  The header has fourteen columns and the row of an active transaction seven cells read
  from \<^verbatim>\<open>transaction.stop\<close>, not nine.
\<close>

theorem csv_stop_columns_are_seven:
  "stop (activeTransaction 502) = None \<and>
   length csvHeaderColumns = 14 \<and>
   length (startCells sampleCsv (activeTransaction 502)) = 7 \<and>
   length (stopCells sampleCsv (activeTransaction 502)) = 7 \<and>
   length (stopCells sampleCsv (activeTransaction 502)) \<noteq> 9"
  by (simp add: activeTransaction_def csvHeaderColumns_def startCells_def stopCells_def)

section \<open>Properties of the in-error query\<close>

lemma length_limitTo100: "length (result (limitTo100 x)) \<le> 100"
  by (simp add: limitTo100_def)

lemma result_limitTo100: "result (limitTo100 x) = take 100 (result x)"
  by (simp add: limitTo100_def)

text \<open>
  Claim C8: the list that \<^verbatim>\<open>handleGetTransactionsInError\<close> returns has at most 100 entries:
  it is the first 100 entries of what the store returned and the shaping pass kept, whatever
  page size the request asked for.
\<close>

theorem in_error_result_at_most_100:
  assumes "handleGetTransactionsInError auth q u r st = Inr txs"
  shows "length (result txs) \<le> 100 \<and>
         result txs =
           take 100 (result (filterTransactionsResponse q u
             (getTransactionsInError q st (transactionsInErrorFilter q u r)
                \<lparr>db_limit = Limit r, db_skip = Skip r, db_sort = Sort r,
                 db_onlyRecordCount = OnlyRecordCount r\<rparr>)))"
proof -
  from assms have "txs = limitTo100 (filterTransactionsResponse q u
             (getTransactionsInError q st (transactionsInErrorFilter q u r)
                \<lparr>db_limit = Limit r, db_skip = Skip r, db_sort = Sort r,
                 db_onlyRecordCount = OnlyRecordCount r\<rparr>))"
    by (simp add: handleGetTransactionsInError_def split: if_splits)
  then show ?thesis by (simp add: length_limitTo100 result_limitTo100)
qed

text \<open>A request for a page of 200 over a store that returns 150 transactions gets 100.\<close>

theorem in_error_result_at_most_100_witness:
  "handleGetTransactionsInError allowAll sampleQuery admin sampleRequest sampleStore
     = Inr \<lparr>result_count = 150, result = replicate 100 (completedTransaction 1)\<rparr> \<and>
   Limit sampleRequest = 200 \<and>
   length (result (getTransactionsInError sampleQuery sampleStore
              (transactionsInErrorFilter sampleQuery admin sampleRequest)
              \<lparr>db_limit = 200, db_skip = 0, db_sort = None, db_onlyRecordCount = False\<rparr>)) = 150 \<and>
   length (result \<lparr>result_count = 150, result = replicate 100 (completedTransaction 1)\<rparr>) \<le> 100"
proof -
  have e: "issuer (externalTransaction 2) = False" "issuer (completedTransaction 1) = True"
    by (simp_all add: externalTransaction_def completedTransaction_def activeTransaction_def)
  have h: "handleGetTransactionsInError allowAll sampleQuery admin sampleRequest sampleStore
     = Inr \<lparr>result_count = 150, result = replicate 100 (completedTransaction 1)\<rparr>"
    by (simp add: query_defs e)
  have l: "Limit sampleRequest = 200" by (simp add: sampleRequest_def)
  have s: "length (result (getTransactionsInError sampleQuery sampleStore
              (transactionsInErrorFilter sampleQuery admin sampleRequest)
              \<lparr>db_limit = 200, db_skip = 0, db_sort = None, db_onlyRecordCount = False\<rparr>)) = 150"
    by (simp add: query_defs e)
  show ?thesis using in_error_result_at_most_100[OF h] h l s by simp
qed

text \<open>
  Claim C10: whatever the request, the filter handed to the store has \<^verbatim>\<open>issuer\<close> set to
  true; the answer of the handler depends on the store only through what it returns for
  filters with \<^verbatim>\<open>issuer\<close> true; and with a store that honours the issuer filter and a shaping
  pass that keeps the issuer flag, every transaction returned is locally issued.
\<close>

theorem in_error_query_is_local:
  "filter_issuer (transactionsInErrorFilter q u r) = Some True \<and>
   ((\<forall>f p. filter_issuer f = Some True \<longrightarrow> g st f p = g' st f p) \<longrightarrow>
      handleGetTransactionsInError auth (q\<lparr>getTransactionsInError := g\<rparr>) u r st =
      handleGetTransactionsInError auth (q\<lparr>getTransactionsInError := g'\<rparr>) u r st) \<and>
   (honoursIssuerFilter q \<longrightarrow> shapingKeepsIssuer q \<longrightarrow>
      handleGetTransactionsInError auth q u r st = Inr txs \<longrightarrow> (\<forall>t\<in>set (result txs). issuer t))"
proof -
  have a: "\<And>q. filter_issuer (transactionsInErrorFilter q u r) = Some True"
    by (simp add: transactionsInErrorFilter_def Let_def)
  have same: "\<And>g. transactionsInErrorFilter (q\<lparr>getTransactionsInError := g\<rparr>) u r =
                    transactionsInErrorFilter q u r"
    by (simp add: transactionsInErrorFilter_def Let_def)
  have b: "handleGetTransactionsInError auth (q\<lparr>getTransactionsInError := g\<rparr>) u r st =
           handleGetTransactionsInError auth (q\<lparr>getTransactionsInError := g'\<rparr>) u r st"
    if agree: "\<forall>f p. filter_issuer f = Some True \<longrightarrow> g st f p = g' st f p"
    using agree a[of q] by (simp add: handleGetTransactionsInError_def same)
  have c: "\<forall>t\<in>set (result txs). issuer t"
    if store: "honoursIssuerFilter q" and shape: "shapingKeepsIssuer q"
      and res: "handleGetTransactionsInError auth q u r st = Inr txs"
  proof -
    let ?p = "\<lparr>db_limit = Limit r, db_skip = Skip r, db_sort = Sort r,
               db_onlyRecordCount = OnlyRecordCount r\<rparr>"
    let ?raw = "getTransactionsInError q st (transactionsInErrorFilter q u r) ?p"
    have "\<forall>t\<in>set (result ?raw). issuer t"
      using store a[of q] unfolding honoursIssuerFilter_def by blast
    then have shaped: "\<forall>t\<in>set (result (filterTransactionsResponse q u ?raw)). issuer t"
      using shape unfolding shapingKeepsIssuer_def by blast
    have "result txs = take 100 (result (filterTransactionsResponse q u ?raw))"
      using res by (auto simp: handleGetTransactionsInError_def result_limitTo100 split: if_splits)
    then show ?thesis using shaped by (auto dest: in_set_takeD)
  qed
  show ?thesis using a[of q] b c by blast
qed

text \<open>
  The sample store holds a roamed transaction; it honours the filter, and the answer holds
  local transactions only.
\<close>

theorem in_error_query_is_local_witness:
  "honoursIssuerFilter sampleQuery \<and> shapingKeepsIssuer sampleQuery \<and>
   filter_issuer (transactionsInErrorFilter sampleQuery admin sampleRequest) = Some True \<and>
   handleGetTransactionsInError allowAll sampleQuery admin sampleRequest sampleStore
     = Inr \<lparr>result_count = 150, result = replicate 100 (completedTransaction 1)\<rparr> \<and>
   list_all issuer (replicate 100 (completedTransaction 1))"
proof -
  have e: "issuer (externalTransaction 2) = False" "issuer (completedTransaction 1) = True"
    by (simp_all add: externalTransaction_def completedTransaction_def activeTransaction_def)
  have h1: "honoursIssuerFilter sampleQuery"
    by (auto simp: honoursIssuerFilter_def sampleQuery_def e)
  have h2: "shapingKeepsIssuer sampleQuery"
    by (simp add: shapingKeepsIssuer_def sampleQuery_def)
  have h3: "handleGetTransactionsInError allowAll sampleQuery admin sampleRequest sampleStore
     = Inr \<lparr>result_count = 150, result = replicate 100 (completedTransaction 1)\<rparr>"
    by (simp add: query_defs e)
  note t = in_error_query_is_local[where q=sampleQuery and u=admin and r=sampleRequest
      and st=sampleStore and auth=allowAll
      and g="getTransactionsInError sampleQuery" and g'="getTransactionsInError sampleQuery"
      and txs="\<lparr>result_count = 150, result = replicate 100 (completedTransaction 1)\<rparr>"]
  have "\<forall>t\<in>set (result \<lparr>result_count = 150, result = replicate 100 (completedTransaction 1)\<rparr>). issuer t"
    using t[THEN conjunct2, THEN conjunct2, rule_format, OF h1 h2 h3] by blast
  then have "list_all issuer (replicate 100 (completedTransaction 1))"
    by (simp add: list_all_iff)
  then show ?thesis using h1 h2 h3 t[THEN conjunct1] by simp
qed

end
